theory Spec2Isabelle
  imports Main "HOL-Library.Sublist" "HOL-Library.Word"
begin

section \<open>Python strings\<close>

text \<open>
  A Python \<open>str\<close> is a sequence of Unicode code points, and \<open>len\<close> and slicing count
  code points. A string is therefore a list of code points (natural numbers); \<open>py\<close>
  turns an ASCII literal into such a list.
\<close>

type_synonym pystr = "nat list"

definition py :: "string \<Rightarrow> pystr" where
  "py s = map of_char s"

text \<open>
  The character class of the regular expression in \<open>sanitize_filename\<close>:
  backslash, slash, colon, asterisk, question mark, less-than, greater-than, vertical bar,
  tab and double quote.
\<close>

definition reserved :: "nat list" where
  "reserved = [92, 47, 58, 42, 63, 60, 62, 124, 9, 34]"

text \<open>\<open>str.isspace\<close> on one code point: the white space that \<open>str.strip()\<close> removes.\<close>

definition isspace :: "nat \<Rightarrow> bool" where
  "isspace c \<longleftrightarrow> (9 \<le> c \<and> c \<le> 13) \<or> (28 \<le> c \<and> c \<le> 32) \<or> c = 133 \<or> c = 160
     \<or> c = 5760 \<or> (8192 \<le> c \<and> c \<le> 8202) \<or> c = 8232 \<or> c = 8233 \<or> c = 8239
     \<or> c = 8287 \<or> c = 12288"

definition lstrip :: "pystr \<Rightarrow> pystr" where
  "lstrip s = dropWhile isspace s"

definition rstrip :: "pystr \<Rightarrow> pystr" where
  "rstrip s = rev (dropWhile isspace (rev s))"

definition strip :: "pystr \<Rightarrow> pystr" where
  "strip s = rstrip (lstrip s)"

text \<open>\<open>re.sub(r'[\\/:*?<>|\t"]', "_", filename)\<close>: every reserved character becomes an underscore.\<close>

definition re_sub_reserved :: "pystr \<Rightarrow> pystr" where
  "re_sub_reserved s = map (\<lambda>c. if c \<in> set reserved then 95 else c) s"

section \<open>The name sanitizer\<close>

text \<open>
  \<^verbatim>\<open>
  def sanitize_filename(filename):
      clean_name = re.sub(r'[\\/:*?<>|\t"]', "_", filename).strip()
      return clean_name[:200]
  \<close>
\<close>

definition sanitize_filename :: "pystr \<Rightarrow> pystr" where
  "sanitize_filename filename = take 200 (strip (re_sub_reserved filename))"

section \<open>Paths, suffix tests and formatting\<close>

text \<open>
  \<open>os.path\<close> on POSIX (the separator is the slash, code point 47; the extension
  separator is the dot, code point 46).
  \<open>os.path.join(a, b)\<close>: \<open>b\<close> alone if it starts with the separator, otherwise \<open>a\<close> and
  \<open>b\<close> with one separator between them unless \<open>a\<close> is empty or ends with one.
\<close>

definition join :: "pystr \<Rightarrow> pystr \<Rightarrow> pystr" where
  "join a b =
     (if b \<noteq> [] \<and> hd b = 47 then b
      else if a = [] \<or> last a = 47 then a @ b
      else a @ [47] @ b)"

text \<open>
  \<open>os.path.dirname(p)\<close>: everything up to and including the last separator, with
  trailing separators removed unless nothing else is left.
\<close>

definition dirname :: "pystr \<Rightarrow> pystr" where
  "dirname p =
     (let head = rev (dropWhile (\<lambda>c. c \<noteq> 47) (rev p))
      in if head \<noteq> [] \<and> (\<exists>c \<in> set head. c \<noteq> 47)
         then rev (dropWhile (\<lambda>c. c = 47) (rev head)) else head)"

text \<open>
  \<open>os.path.splitext(p)[0]\<close>: the path without the extension of its last component; the
  extension starts at the last dot of that component, and a component that has only dots
  before that dot has no extension.
\<close>

definition splitext_root :: "pystr \<Rightarrow> pystr" where
  "splitext_root p =
     (let head = rev (dropWhile (\<lambda>c. c \<noteq> 47) (rev p));
          base = rev (takeWhile (\<lambda>c. c \<noteq> 47) (rev p));
          stem = rev (tl (dropWhile (\<lambda>c. c \<noteq> 46) (rev base)))
      in if 46 \<in> set base \<and> (\<exists>c \<in> set stem. c \<noteq> 46) then head @ stem else p)"

text \<open>\<open>s.endswith(exts)\<close> with a tuple of suffixes.\<close>

definition endswith :: "pystr \<Rightarrow> pystr list \<Rightarrow> bool" where
  "endswith s exts = list_ex (\<lambda>e. suffix e s) exts"

text \<open>\<open>str.lower()\<close> restricted to ASCII letters, used for the string constants of the code.\<close>

definition ascii_lower :: "pystr \<Rightarrow> pystr" where
  "ascii_lower s = map (\<lambda>c. if 65 \<le> c \<and> c \<le> 90 then c + 32 else c) s"

text \<open>\<open>str(n)\<close> for an integer: its decimal digits.\<close>

function str_nat :: "nat \<Rightarrow> pystr" where
  "str_nat n = (if n < 10 then [48 + n] else str_nat (n div 10) @ [48 + n mod 10])"
  by pat_completeness auto
termination
  by (relation "measure id") auto

declare str_nat.simps [simp del]

definition str_int :: "int \<Rightarrow> pystr" where
  "str_int i = (if i < 0 then 45 # str_nat (nat (- i)) else str_nat (nat i))"

text \<open>
  The values found in the JSON metadata of a file, with Python's truth value and
  \<open>str()\<close> (what an f-string interpolates). Floats and nested containers do not occur in
  the fields the code reads and are left out.
\<close>

datatype pyval = PNone | PBool bool | PInt int | PStr pystr

fun truthy :: "pyval \<Rightarrow> bool" where
  "truthy PNone = False"
| "truthy (PBool b) = b"
| "truthy (PInt i) = (i \<noteq> 0)"
| "truthy (PStr s) = (s \<noteq> [])"

fun str_of :: "pyval \<Rightarrow> pystr" where
  "str_of PNone = py ''None''"
| "str_of (PBool b) = (if b then py ''True'' else py ''False'')"
| "str_of (PInt i) = str_int i"
| "str_of (PStr s) = s"

text \<open>\<open>a or b\<close>, \<open>d.get(k)\<close> and \<open>d.get(k, default)\<close>.\<close>

definition py_or :: "pyval \<Rightarrow> pyval \<Rightarrow> pyval" where
  "py_or a b = (if truthy a then a else b)"

definition dict_get :: "(pystr \<rightharpoonup> pyval) \<Rightarrow> pystr \<Rightarrow> pyval \<Rightarrow> pyval" where
  "dict_get d k dflt = (case d k of None \<Rightarrow> dflt | Some v \<Rightarrow> v)"

text \<open>
  UTF-8, the encoding of the pointer files. Surrogates and numbers beyond the Unicode
  range have no encoding: Python raises \<open>UnicodeEncodeError\<close>.
\<close>

type_synonym bytes = "8 word list"

definition utf8_cp :: "nat \<Rightarrow> bytes option" where
  "utf8_cp c =
     (if c < 0x80 then Some [of_nat c]
      else if c < 0x800 then Some [of_nat (0xC0 + c div 64), of_nat (0x80 + c mod 64)]
      else if 0xD800 \<le> c \<and> c < 0xE000 then None
      else if c < 0x10000 then
        Some [of_nat (0xE0 + c div 4096), of_nat (0x80 + c div 64 mod 64),
              of_nat (0x80 + c mod 64)]
      else if c < 0x110000 then
        Some [of_nat (0xF0 + c div 262144), of_nat (0x80 + c div 4096 mod 64),
              of_nat (0x80 + c div 64 mod 64), of_nat (0x80 + c mod 64)]
      else None)"

definition utf8 :: "pystr \<Rightarrow> bytes option" where
  "utf8 s = map_option concat (those (map utf8_cp s))"

section \<open>Configuration\<close>

definition VIDEO_EXTS :: "pystr list" where
  "VIDEO_EXTS = [py ''.mp4'', py ''.mkv'', py ''.avi'', py ''.mov'', py ''.flv'', py ''.ts'',
                 py ''.iso'', py ''.rmvb'', py ''.m2ts'']"

definition SUBTITLE_EXTS :: "pystr list" where
  "SUBTITLE_EXTS = [py ''.srt'', py ''.ass'', py ''.ssa'', py ''.sub'', py ''.txt'', py ''.vtt'',
                    py ''.ttml'', py ''.dfxp'']"

definition REQUEST_DELAY :: nat where
  "REQUEST_DELAY = 1"

definition DIR_DELAY :: nat where
  "DIR_DELAY = 2"

definition MAX_RETRIES :: nat where
  "MAX_RETRIES = 3"

definition DIRECT_LINK_SERVICE_URL :: pystr where
  "DIRECT_LINK_SERVICE_URL = py ''http://172.17.0.1:8123''"

section \<open>The world: local file system, log, clock and remote services\<close>

text \<open>
  All exceptions below derive from \<open>Exception\<close>; signals that do not
  (\<open>KeyboardInterrupt\<close>) are not modelled.
\<close>

datatype exn =
    ClientError
  | TransportError
  | HTTPStatusError nat
  | OSError
  | FileNotFoundError
  | FileExistsError
  | IsADirectoryError
  | IndexError
  | ValueError
  | UnicodeEncodeError
  | RetryError exn

datatype level = Info | Warning | Error | Critical

datatype mode = W | Wb | Ab

text \<open>
  Everything the program does to the outside is recorded, in order: log records (by
  level), sleeps (seconds), the calls to the remote client (URL resolution, metadata,
  listing), the HTTP GET (URL and the start of the byte range when a \<open>Range\<close> header is
  sent), and the calls that create directories and open files for writing.
\<close>

datatype event =
    Log level
  | Sleep nat
  | DownloadInfo int
  | FsInfo int
  | Iterdir int
  | HttpGet pystr "nat option"
  | Makedirs pystr
  | Open pystr mode

datatype node = File bytes | Dir

record world =
  nodes :: "pystr \<rightharpoonup> node"
  trace :: "event list"

text \<open>A remote item as the listing returns it (\<open>Type\<close> is non-zero for a directory).\<close>

record item =
  FileId :: int
  FileName :: pystr
  Type :: int
  Size :: int

text \<open>
  An HTTP response as the code reads it: the status, the \<open>content-length\<close> header
  (absent, or present and then either an integer literal or not), the bytes that
  \<open>iter_bytes\<close> yields and the exception, if any, that it raises after them.
\<close>

record response =
  status :: nat
  content_length :: "int option option"
  body :: bytes
  stream_error :: "exn option"

text \<open>
  The collaborators outside the program answer as functions of the moment of the call
  (the number of events so far), so that an answer may change from one attempt to the
  next: the remote client (\<open>download_info\<close> followed by \<open>check_response\<close> and the lookup
  of \<open>DownloadUrl\<close>; \<open>fs_info\<close> followed by \<open>check_response\<close> and the lookup of
  \<open>infoList\<close>; \<open>iterdir\<close> with depth 1), the HTTP server, and the operating system,
  which may refuse to create a directory or to open a file and reports the size of a
  directory.
\<close>

record outside =
  download_info :: "nat \<Rightarrow> item \<Rightarrow> exn + pystr"
  fs_info :: "nat \<Rightarrow> int \<Rightarrow> exn + (pystr \<rightharpoonup> pyval) list"
  iterdir :: "nat \<Rightarrow> int \<Rightarrow> exn + item list"
  http_get :: "nat \<Rightarrow> pystr \<Rightarrow> nat option \<Rightarrow> exn + response"
  os_fault :: "nat \<Rightarrow> pystr \<Rightarrow> exn option"
  dir_size :: "pystr \<Rightarrow> nat"

text \<open>
  The interpreter's side: the environment variables and the Unicode case mapping of
  \<open>str.lower()\<close>, whose table is not reproduced here.
\<close>

record platform =
  getenv :: "pystr \<Rightarrow> pystr option"
  str_lower :: "pystr \<Rightarrow> pystr"

type_synonym 'a action = "world \<Rightarrow> (exn + 'a) \<times> world"

definition ret :: "'a \<Rightarrow> 'a action" where
  "ret a w = (Inr a, w)"

definition raise :: "exn \<Rightarrow> 'a action" where
  "raise e w = (Inl e, w)"

definition andthen :: "'a action \<Rightarrow> ('a \<Rightarrow> 'b action) \<Rightarrow> 'b action" where
  "andthen m f w = (case m w of (Inl e, w') \<Rightarrow> (Inl e, w') | (Inr a, w') \<Rightarrow> f a w')"

definition clock :: "world \<Rightarrow> nat" where
  "clock w = length (trace w)"

definition emit :: "event \<Rightarrow> world \<Rightarrow> world" where
  "emit ev w = w\<lparr>trace := trace w @ [ev]\<rparr>"

definition log :: "level \<Rightarrow> unit action" where
  "log lv w = (Inr (), emit (Log lv) w)"

definition sleep :: "nat \<Rightarrow> world \<Rightarrow> world" where
  "sleep n w = emit (Sleep n) w"

definition client_download_info :: "outside \<Rightarrow> item \<Rightarrow> pystr action" where
  "client_download_info env it w = (download_info env (clock w) it, emit (DownloadInfo (FileId it)) w)"

definition client_fs_info :: "outside \<Rightarrow> int \<Rightarrow> (pystr \<rightharpoonup> pyval) list action" where
  "client_fs_info env file_id w = (fs_info env (clock w) file_id, emit (FsInfo file_id) w)"

definition client_iterdir :: "outside \<Rightarrow> int \<Rightarrow> item list action" where
  "client_iterdir env parent_id w = (iterdir env (clock w) parent_id, emit (Iterdir parent_id) w)"

definition session_stream :: "outside \<Rightarrow> pystr \<Rightarrow> nat option \<Rightarrow> response action" where
  "session_stream env url rng w = (http_get env (clock w) url rng, emit (HttpGet url rng) w)"

text \<open>
  \<open>os.makedirs(d, exist_ok=True)\<close>: fails when the system refuses, when \<open>d\<close> is empty and
  when \<open>d\<close> is a regular file; otherwise \<open>d\<close> is a directory afterwards. (The ancestors it
  creates on the way are not entered in \<open>nodes\<close>.)
\<close>

definition os_makedirs :: "outside \<Rightarrow> pystr \<Rightarrow> unit action" where
  "os_makedirs env d w =
     (let w' = emit (Makedirs d) w in
      case os_fault env (clock w) d of
        Some e \<Rightarrow> (Inl e, w')
      | None \<Rightarrow>
          if d = [] then (Inl FileNotFoundError, w')
          else (case nodes w d of
                  Some (File c) \<Rightarrow> (Inl FileExistsError, w')
                | Some Dir \<Rightarrow> (Inr (), w')
                | None \<Rightarrow> (Inr (), w'\<lparr>nodes := (nodes w')(d \<mapsto> Dir)\<rparr>)))"

definition os_path_exists :: "world \<Rightarrow> pystr \<Rightarrow> bool" where
  "os_path_exists w p = (nodes w p \<noteq> None)"

definition os_path_getsize :: "outside \<Rightarrow> pystr \<Rightarrow> nat action" where
  "os_path_getsize env p w =
     (case nodes w p of
        None \<Rightarrow> (Inl FileNotFoundError, w)
      | Some Dir \<Rightarrow> (Inr (dir_size env p), w)
      | Some (File c) \<Rightarrow> (Inr (length c), w))"

text \<open>
  \<open>open(p, mode)\<close> for writing: fails when the system refuses and on a directory; modes
  \<open>w\<close> and \<open>wb\<close> leave an empty file, \<open>ab\<close> keeps what is there.
\<close>

definition open_file :: "outside \<Rightarrow> pystr \<Rightarrow> mode \<Rightarrow> unit action" where
  "open_file env p m w =
     (let w' = emit (Open p m) w in
      case os_fault env (clock w) p of
        Some e \<Rightarrow> (Inl e, w')
      | None \<Rightarrow>
          (case nodes w p of
             Some Dir \<Rightarrow> (Inl IsADirectoryError, w')
           | Some (File c) \<Rightarrow>
               (Inr (), w'\<lparr>nodes := (nodes w')(p \<mapsto> File (if m = Ab then c else []))\<rparr>)
           | None \<Rightarrow> (Inr (), w'\<lparr>nodes := (nodes w')(p \<mapsto> File [])\<rparr>)))"

text \<open>\<open>f.write(chunk)\<close> on an open file: the bytes go to its end.\<close>

definition write_file :: "pystr \<Rightarrow> bytes \<Rightarrow> world \<Rightarrow> world" where
  "write_file p bs w =
     w\<lparr>nodes := (nodes w)(p \<mapsto> File ((case nodes w p of Some (File c) \<Rightarrow> c | _ \<Rightarrow> []) @ bs))\<rparr>"

section \<open>The resumable downloader\<close>

text \<open>
  \<open>response.raise_for_status()\<close> of httpx: any status outside 200..299 raises.
\<close>

definition raise_for_status :: "response \<Rightarrow> unit action" where
  "raise_for_status r =
     (if 200 \<le> status r \<and> status r < 300 then ret () else raise (HTTPStatusError (status r)))"

text \<open>
  \<open>total_size = int(response.headers.get('content-length', 0)) or item["Size"]\<close>: the
  value is not used afterwards, but \<open>int\<close> raises on a malformed header.
\<close>

definition total_size :: "response \<Rightarrow> item \<Rightarrow> int action" where
  "total_size r it =
     (case content_length r of
        None \<Rightarrow> ret (Size it)
      | Some None \<Rightarrow> raise ValueError
      | Some (Some n) \<Rightarrow> ret (if n \<noteq> 0 then n else Size it))"

text \<open>
  The loop over \<open>response.iter_bytes()\<close>: every chunk received is written; an exception
  of the stream comes after the chunks before it have been written.
\<close>

definition write_chunks :: "pystr \<Rightarrow> response \<Rightarrow> unit action" where
  "write_chunks p r w =
     (case stream_error r of
        None \<Rightarrow> (Inr (), write_file p (body r) w)
      | Some e \<Rightarrow> (Inl e, write_file p (body r) w))"

text \<open>
  Lines 62 to 67: a local file of exactly the declared size is complete (\<open>True\<close>, after
  an info record); any other existing file is reported as an unfinished download.
\<close>

definition already_complete :: "outside \<Rightarrow> item \<Rightarrow> pystr \<Rightarrow> bool action" where
  "already_complete env it local_path w =
     (if os_path_exists w local_path then
        andthen (os_path_getsize env local_path) (\<lambda>local_size.
          if int local_size = Size it then andthen (log Info) (\<lambda>_. ret True)
          else andthen (log Info) (\<lambda>_. ret False)) w
      else ret False w)"

text \<open>Lines 70 to 72: the \<open>Range\<close> header, present exactly when the local path exists.\<close>

definition range_header :: "outside \<Rightarrow> pystr \<Rightarrow> nat option action" where
  "range_header env local_path w =
     (if os_path_exists w local_path
      then andthen (os_path_getsize env local_path) (\<lambda>n. ret (Some n)) w
      else ret None w)"

text \<open>Lines 69 to 81: the streamed GET and the writing of the chunks.\<close>

definition fetch_and_write :: "outside \<Rightarrow> item \<Rightarrow> pystr \<Rightarrow> pystr \<Rightarrow> unit action" where
  "fetch_and_write env it local_path url =
     andthen (range_header env local_path) (\<lambda>headers.
     andthen (session_stream env url headers) (\<lambda>response.
     andthen (raise_for_status response) (\<lambda>_.
     andthen (total_size response it) (\<lambda>_.
     andthen (open_file env local_path (if headers \<noteq> None then Ab else Wb)) (\<lambda>_.
     write_chunks local_path response)))))"

text \<open>
  The body of \<open>download_file\<close> (one attempt): the \<open>try\<close> block, and the handler that
  logs an error and raises the exception again.
\<close>

definition download_try :: "outside \<Rightarrow> item \<Rightarrow> pystr \<Rightarrow> bool action" where
  "download_try env it local_path =
     andthen (client_download_info env it) (\<lambda>url.
     andthen (os_makedirs env (dirname local_path)) (\<lambda>_.
     andthen (already_complete env it local_path) (\<lambda>complete.
       if complete then ret True
       else andthen (fetch_and_write env it local_path url) (\<lambda>_.
            andthen (log Info) (\<lambda>_. ret True)))))"

definition download_attempt :: "outside \<Rightarrow> item \<Rightarrow> pystr \<Rightarrow> bool action" where
  "download_attempt env it local_path w =
     (case download_try env it local_path w of
        (Inl e, w') \<Rightarrow> andthen (log Error) (\<lambda>_. raise e) w'
      | (Inr r, w') \<Rightarrow> (Inr r, w'))"

text \<open>
  The wait strategy of the decorator, \<open>wait_exponential(multiplier, min, max)\<close> of the
  tenacity library: after attempt number \<open>n\<close> (counted from 1) the delay is
  \<open>multiplier * 2 ** (n - 1)\<close>, clamped between \<open>min\<close> and \<open>max\<close>.
\<close>

definition wait_exponential :: "nat \<Rightarrow> nat \<Rightarrow> nat \<Rightarrow> nat \<Rightarrow> nat" where
  "wait_exponential multiplier mn mx attempt_number =
     max (max 0 mn) (min (multiplier * 2 ^ (attempt_number - 1)) mx)"

text \<open>
  \<open>download_file\<close> as decorated: \<open>stop_after_attempt(MAX_RETRIES)\<close> ends the loop with
  \<open>RetryError\<close> once the attempt number has reached the maximum; otherwise the
  \<open>before_sleep\<close> callback logs a warning, the loop sleeps and tries again.
\<close>

function retrying :: "outside \<Rightarrow> item \<Rightarrow> pystr \<Rightarrow> nat \<Rightarrow> bool action" where
  "retrying env it local_path attempt_number w =
     (case download_attempt env it local_path w of
        (Inr r, w') \<Rightarrow> (Inr r, w')
      | (Inl e, w') \<Rightarrow>
          if attempt_number \<ge> MAX_RETRIES then (Inl (RetryError e), w')
          else retrying env it local_path (Suc attempt_number)
                 (sleep (wait_exponential 1 2 10 attempt_number) (emit (Log Warning) w')))"
  by pat_completeness auto
termination
  by (relation "measure (\<lambda>(env, it, local_path, n, w). MAX_RETRIES - n)") auto

declare retrying.simps [simp del]

definition download_file :: "outside \<Rightarrow> item \<Rightarrow> pystr \<Rightarrow> bool action" where
  "download_file env it local_path = retrying env it local_path 1"

section \<open>The pointer-file emitter\<close>

definition required_fields :: "pystr list" where
  "required_fields = [py ''Etag'', py ''S3KeyFlag'', py ''Size'']"

text \<open>
  The loop over \<open>required_fields\<close>: the first field that is in the metadata neither
  under its own name nor under its lowercase name.
\<close>

definition missing_field :: "(pystr \<rightharpoonup> pyval) \<Rightarrow> pystr option" where
  "missing_field data =
     find (\<lambda>field. data (ascii_lower field) = None \<and> data field = None) required_fields"

text \<open>Lines 110 to 117: the content of the pointer file.\<close>

definition s3_key_flag :: "(pystr \<rightharpoonup> pyval) \<Rightarrow> pyval" where
  "s3_key_flag data =
     py_or (dict_get data (py ''S3KeyFlag'') PNone) (dict_get data (py ''s3keyflag'') (PStr []))"

definition etag_of :: "(pystr \<rightharpoonup> pyval) \<Rightarrow> pyval" where
  "etag_of data =
     py_or (dict_get data (py ''Etag'') PNone) (dict_get data (py ''etag'') (PStr []))"

definition size_of :: "item \<Rightarrow> (pystr \<rightharpoonup> pyval) \<Rightarrow> pyval" where
  "size_of it data = py_or (dict_get data (py ''Size'') PNone) (PInt (Size it))"

definition strm_url :: "item \<Rightarrow> (pystr \<rightharpoonup> pyval) \<Rightarrow> pystr" where
  "strm_url it data =
     (let etag = etag_of data;
          size = size_of it data;
          raw_file_name = FileName it;
          url = DIRECT_LINK_SERVICE_URL @ py ''/'' @ raw_file_name @ py ''|'' @ str_of size
                  @ py ''|'' @ str_of etag
      in if truthy (s3_key_flag data) then url @ py ''?s3keyflag='' @ str_of (s3_key_flag data)
         else url)"

text \<open>
  \<open>f.write(url)\<close> on a text file opened with \<open>encoding="utf-8"\<close>: a string that cannot
  be encoded raises and nothing is written.
\<close>

definition write_text :: "pystr \<Rightarrow> pystr \<Rightarrow> unit action" where
  "write_text p s w =
     (case utf8 s of
        None \<Rightarrow> (Inl UnicodeEncodeError, w)
      | Some bs \<Rightarrow> (Inr (), write_file p bs w))"

definition strm_path :: "item \<Rightarrow> pystr \<Rightarrow> pystr" where
  "strm_path it local_path =
     join local_path (sanitize_filename (splitext_root (FileName it)) @ py ''.strm'')"

text \<open>
  Lines 99 to 121: fetch the metadata, take the first entry of \<open>infoList\<close>, check the
  required fields (\<open>False\<close> after an error record when one is missing), write the file.
\<close>

definition write_strm :: "outside \<Rightarrow> item \<Rightarrow> pystr \<Rightarrow> bool action" where
  "write_strm env it path =
     andthen (client_fs_info env (FileId it)) (\<lambda>info_list.
       case info_list of
         [] \<Rightarrow> raise IndexError
       | data # _ \<Rightarrow>
           (case missing_field data of
              Some field \<Rightarrow> andthen (log Error) (\<lambda>_. ret False)
            | None \<Rightarrow>
                andthen (open_file env path W) (\<lambda>_.
                andthen (write_text path (strm_url it data)) (\<lambda>_.
                andthen (log Info) (\<lambda>_. ret True)))))"

text \<open>Lines 94 to 123: the media branch of \<open>process_item\<close>.\<close>

definition emit_strm :: "platform \<Rightarrow> outside \<Rightarrow> item \<Rightarrow> pystr \<Rightarrow> bool action" where
  "emit_strm P env it local_path w =
     (if \<not> os_path_exists w (strm_path it local_path) \<or> getenv P (py ''DEBUG'') = Some (py ''1'')
      then write_strm env it (strm_path it local_path) w
      else ret True w)"

section \<open>The per-item handler\<close>

text \<open>The truth value of \<open>os.getenv(name)\<close>: set and not empty.\<close>

definition env_set :: "platform \<Rightarrow> pystr \<Rightarrow> bool" where
  "env_set P name = (case getenv P name of None \<Rightarrow> False | Some v \<Rightarrow> v \<noteq> [])"

definition is_video :: "platform \<Rightarrow> item \<Rightarrow> bool" where
  "is_video P it = endswith (str_lower P (FileName it)) VIDEO_EXTS"

definition is_subtitle :: "platform \<Rightarrow> item \<Rightarrow> bool" where
  "is_subtitle P it = endswith (str_lower P (FileName it)) SUBTITLE_EXTS"

text \<open>
  The \<open>try\<close> block of \<open>process_item\<close>; its result is \<open>True\<close>, \<open>False\<close> or, when no
  branch applies and the function falls off its end, \<open>None\<close>.
\<close>

definition process_item_try :: "platform \<Rightarrow> outside \<Rightarrow> item \<Rightarrow> pystr \<Rightarrow> bool option action" where
  "process_item_try P env it local_path =
     (if \<not> env_set P (py ''SYNC_SUBTITLE_ONLY'') \<and> is_video P it
      then andthen (emit_strm P env it local_path) (\<lambda>r. ret (Some r))
      else if is_subtitle P it
      then andthen (download_file env it (join local_path (sanitize_filename (FileName it))))
             (\<lambda>r. ret (Some r))
      else ret None)"

text \<open>
  \<open>process_item\<close>: the handler \<open>except Exception\<close> logs an error and returns \<open>False\<close>, so
  no exception leaves the function.
\<close>

definition process_item :: "platform \<Rightarrow> outside \<Rightarrow> item \<Rightarrow> pystr \<Rightarrow> world \<Rightarrow> bool option \<times> world" where
  "process_item P env it local_path w =
     (case process_item_try P env it local_path w of
        (Inl e, w') \<Rightarrow> (Some False, emit (Log Error) w')
      | (Inr r, w') \<Rightarrow> (r, w'))"

section \<open>The tree walker\<close>

text \<open>
  \<open>generate_strm\<close> recurses into the remote tree, whose depth the program does not
  bound; the first argument bounds the number of nested calls, and \<open>None\<close> means that
  the bound was reached. \<open>for_items\<close> is the loop over the listing. An exception inside the
  \<open>try\<close> block of \<open>generate_strm\<close> is logged as critical and raised again.
\<close>

fun generate_strm :: "nat \<Rightarrow> platform \<Rightarrow> outside \<Rightarrow> pystr \<Rightarrow> int \<Rightarrow> world
                        \<Rightarrow> ((exn + unit) \<times> world) option"
  and for_items :: "nat \<Rightarrow> platform \<Rightarrow> outside \<Rightarrow> pystr \<Rightarrow> item list \<Rightarrow> world
                        \<Rightarrow> ((exn + unit) \<times> world) option"
where
  "generate_strm 0 P env local_path parent_id w = None"
| "generate_strm (Suc k) P env local_path parent_id w =
     (case client_iterdir env parent_id (emit (Log Info) w) of
        (Inl e, w1) \<Rightarrow> Some (Inl e, emit (Log Critical) w1)
      | (Inr items, w1) \<Rightarrow>
          (case for_items k P env local_path items (sleep DIR_DELAY w1) of
             None \<Rightarrow> None
           | Some (Inl e, w2) \<Rightarrow> Some (Inl e, emit (Log Critical) w2)
           | Some (Inr u, w2) \<Rightarrow> Some (Inr (), emit (Log Info) w2)))"
| "for_items k P env local_path [] w = Some (Inr (), w)"
| "for_items k P env local_path (it # rest) w =
     (if Type it \<noteq> 0 then
        (case os_makedirs env (join local_path (sanitize_filename (FileName it)))
                (emit (Log Info) w) of
           (Inl e, w1) \<Rightarrow> Some (Inl e, w1)
         | (Inr u, w1) \<Rightarrow>
             (case generate_strm k P env (join local_path (sanitize_filename (FileName it)))
                     (FileId it) w1 of
                None \<Rightarrow> None
              | Some (Inl e, w2) \<Rightarrow> Some (Inl e, w2)
              | Some (Inr u, w2) \<Rightarrow>
                  for_items k P env local_path rest (sleep REQUEST_DELAY w2)))
      else
        (case process_item P env it local_path (emit (Log Info) w) of
           (r, w1) \<Rightarrow>
             for_items k P env local_path rest
               (if r = Some True then sleep REQUEST_DELAY w1 else w1)))"

section \<open>Notions used in the statements\<close>

text \<open>The sleeps recorded in a trace, in order.\<close>

fun sleeps :: "event list \<Rightarrow> nat list" where
  "sleeps [] = []"
| "sleeps (Sleep n # evs) = n # sleeps evs"
| "sleeps (ev # evs) = sleeps evs"

text \<open>The network calls recorded in a trace: calls to the remote client and HTTP requests.\<close>

fun is_network :: "event \<Rightarrow> bool" where
  "is_network (DownloadInfo i) = True"
| "is_network (FsInfo i) = True"
| "is_network (Iterdir i) = True"
| "is_network (HttpGet url rng) = True"
| "is_network ev = False"

definition network_calls :: "event list \<Rightarrow> event list" where
  "network_calls evs = filter is_network evs"

text \<open>
  The events that one attempt of a download may record after its URL resolution:
  anything but a further URL resolution, a sleep or a warning (the marks of the retry
  loop).
\<close>

fun within_attempt :: "event \<Rightarrow> bool" where
  "within_attempt (DownloadInfo i) = False"
| "within_attempt (Sleep n) = False"
| "within_attempt (Log lv) = (lv \<noteq> Warning)"
| "within_attempt ev = True"

text \<open>An action only appends events, all of them satisfying \<open>Q\<close>, to the trace.\<close>

definition appends :: "(event \<Rightarrow> bool) \<Rightarrow> 'a action \<Rightarrow> bool" where
  "appends Q m \<longleftrightarrow> (\<forall>w. \<exists>evs. trace (snd (m w)) = trace w @ evs \<and> list_all Q evs)"

text \<open>
  The parent directory of a target path can be created or is there: its path is not
  empty, is not the target itself and is not a regular file.
\<close>

definition parent_ok :: "world \<Rightarrow> pystr \<Rightarrow> bool" where
  "parent_ok w p \<longleftrightarrow> dirname p \<noteq> [] \<and> dirname p \<noteq> p
     \<and> (case nodes w (dirname p) of Some (File c) \<Rightarrow> False | _ \<Rightarrow> True)"

text \<open>The world after the URL resolution and the creation of the parent directory.\<close>

definition after_makedirs :: "item \<Rightarrow> pystr \<Rightarrow> world \<Rightarrow> world" where
  "after_makedirs it p w =
     (let w' = emit (Makedirs (dirname p)) (emit (DownloadInfo (FileId it)) w)
      in case nodes w (dirname p) of
           None \<Rightarrow> w'\<lparr>nodes := (nodes w')(dirname p \<mapsto> Dir)\<rparr>
         | _ \<Rightarrow> w')"

text \<open>
  The pointer-file format in the words of the specification:
  \<open><baseURL>/<rawFileName>|<size>|<contentHash>\<close>, optionally followed by
  \<open>?s3keyflag=<flag>\<close>.
\<close>

definition pointer_line :: "pystr \<Rightarrow> pystr \<Rightarrow> pystr \<Rightarrow> pystr \<Rightarrow> pystr option \<Rightarrow> pystr" where
  "pointer_line base name sz hash flag =
     base @ py ''/'' @ name @ py ''|'' @ sz @ py ''|'' @ hash
       @ (case flag of None \<Rightarrow> [] | Some f \<Rightarrow> py ''?s3keyflag='' @ f)"

text \<open>
  A server that honours byte ranges: the whole content without a \<open>Range\<close> header, the
  content from the requested offset with one, and status 416 when the offset is not
  inside the content.
\<close>

definition range_server :: "bytes \<Rightarrow> nat option \<Rightarrow> exn + response" where
  "range_server content rng =
     (case rng of
        None \<Rightarrow> Inr \<lparr>status = 200, content_length = Some (Some (int (length content))),
                     body = content, stream_error = None\<rparr>
      | Some k \<Rightarrow>
          if k < length content
          then Inr \<lparr>status = 206, content_length = Some (Some (int (length content - k))),
                    body = drop k content, stream_error = None\<rparr>
          else Inr \<lparr>status = 416, content_length = Some (Some 0), body = [],
                    stream_error = None\<rparr>)"

text \<open>
  The retry loop between two attempts: after attempt number \<open>n\<close> has ended in world \<open>w\<close>,
  a warning is logged and the loop sleeps; the next attempt starts in \<open>retry_start n w\<close>.
  \<open>second_start\<close> and \<open>third_start\<close> are the worlds in which the second and the third
  attempt of a download begin.
\<close>

definition retry_start :: "nat \<Rightarrow> world \<Rightarrow> world" where
  "retry_start n w = sleep (wait_exponential 1 2 10 n) (emit (Log Warning) w)"

definition second_start :: "outside \<Rightarrow> item \<Rightarrow> pystr \<Rightarrow> world \<Rightarrow> world" where
  "second_start env it p w = retry_start 1 (snd (download_attempt env it p w))"

definition third_start :: "outside \<Rightarrow> item \<Rightarrow> pystr \<Rightarrow> world \<Rightarrow> world" where
  "third_start env it p w =
     retry_start 2 (snd (download_attempt env it p (second_start env it p w)))"


text \<open>The regular files of a world and their contents.\<close>

definition files_of :: "world \<Rightarrow> pystr \<rightharpoonup> bytes" where
  "files_of w q = (case nodes w q of Some (File c) \<Rightarrow> Some c | _ \<Rightarrow> None)"




section \<open>Example inputs\<close>

text \<open>
  The example of the specification: a directory with \<open>Movie.mkv\<close> (id 2) and
  \<open>Movie.srt\<close> (id 3), mirrored under \<open>/lib\<close>; the subtitle has three bytes here.
\<close>

definition movie_mkv :: item where
  "movie_mkv = \<lparr>FileId = 2, FileName = py ''Movie.mkv'', Type = 0, Size = 1000\<rparr>"

definition movie_srt :: item where
  "movie_srt = \<lparr>FileId = 3, FileName = py ''Movie.srt'', Type = 0, Size = 3\<rparr>"

definition notes_pdf :: item where
  "notes_pdf = \<lparr>FileId = 4, FileName = py ''Notes.pdf'', Type = 0, Size = 7\<rparr>"

definition srt_bytes :: bytes where
  "srt_bytes = [0x31, 0x0A, 0x30]"

definition lib :: pystr where
  "lib = py ''/lib''"

definition lib_srt :: pystr where
  "lib_srt = py ''/lib/Movie.srt''"

definition lib_strm :: pystr where
  "lib_strm = py ''/lib/Movie.strm''"

definition movie_meta :: "pystr \<rightharpoonup> pyval" where
  "movie_meta = [py ''Etag'' \<mapsto> PStr (py ''abc''), py ''S3KeyFlag'' \<mapsto> PStr (py ''7-0''),
                 py ''Size'' \<mapsto> PInt 1000]"


text \<open>A remote side where everything works, and its variants.\<close>

definition remote_ok :: outside where
  "remote_ok = \<lparr>download_info = (\<lambda>t it. Inr (py ''http://cdn/f'')),
                 fs_info = (\<lambda>t i. Inr [movie_meta]),
                 iterdir = (\<lambda>t i. Inr [movie_mkv, movie_srt]),
                 http_get = (\<lambda>t url. range_server srt_bytes),
                 os_fault = (\<lambda>t p. None),
                 dir_size = (\<lambda>p. 4096)\<rparr>"


definition remote_down :: outside where
  "remote_down = remote_ok\<lparr>download_info := (\<lambda>t it. Inl ClientError),
                            fs_info := (\<lambda>t i. Inl ClientError),
                            iterdir := (\<lambda>t i. Inl ClientError)\<rparr>"

definition plain :: platform where
  "plain = \<lparr>getenv = (\<lambda>name. None), str_lower = ascii_lower\<rparr>"

definition subtitle_only :: platform where
  "subtitle_only = \<lparr>getenv = (\<lambda>name. if name = py ''SYNC_SUBTITLE_ONLY'' then Some (py ''1'')
                                         else None),
                     str_lower = ascii_lower\<rparr>"


definition empty_lib :: world where
  "empty_lib = \<lparr>nodes = [lib \<mapsto> Dir], trace = []\<rparr>"

definition with_srt :: "bytes \<Rightarrow> world" where
  "with_srt c = \<lparr>nodes = [lib \<mapsto> Dir, lib_srt \<mapsto> File c], trace = []\<rparr>"


text \<open>A server none of whose GET requests gets through.\<close>

definition remote_get_fails :: outside where
  "remote_get_fails = remote_ok\<lparr>http_get := (\<lambda>t url rng. Inl TransportError)\<rparr>"

text \<open>A media item whose name holds a line feed (code point 10).\<close>

definition two_line_mkv :: item where
  "two_line_mkv = \<lparr>FileId = 5, FileName = py ''a'' @ [10] @ py ''b.mkv'', Type = 0, Size = 1000\<rparr>"



section \<open>Properties of the sanitizer\<close>

lemma rstrip_prefix: "prefix (rstrip t) t"
  unfolding rstrip_def
  by (metis prefix_def rev_append rev_rev_ident takeWhile_dropWhile_id)

lemma set_strip: "set (strip s) \<subseteq> set s"
  unfolding strip_def lstrip_def
  by (meson rstrip_prefix set_dropWhileD set_mono_prefix subset_iff)

lemma lstrip_fixed: "lstrip u = u \<longleftrightarrow> u = [] \<or> \<not> isspace (hd u)"
  unfolding lstrip_def by (rule dropWhile_eq_self_iff)

lemma lstrip_idem: "lstrip (lstrip s) = lstrip s"
  unfolding lstrip_def by simp

lemma rstrip_idem: "rstrip (rstrip s) = rstrip s"
  unfolding rstrip_def by simp

lemma lstrip_prefix_closed:
  assumes "lstrip u = u" and "prefix v u"
  shows "lstrip v = v"
proof (cases v)
  case Nil
  then show ?thesis by (simp add: lstrip_def)
next
  case (Cons a as)
  with assms(2) obtain us where "u = a # us"
    by (cases u) auto
  with assms(1) have "\<not> isspace a"
    by (simp add: lstrip_fixed)
  with Cons show ?thesis by (simp add: lstrip_def)
qed

lemma lstrip_strip: "lstrip (strip s) = strip s"
  unfolding strip_def
  by (rule lstrip_prefix_closed [OF lstrip_idem rstrip_prefix])

lemma re_sub_reserved_free: "set (re_sub_reserved s) \<inter> set reserved = {}"
  by (auto simp: re_sub_reserved_def reserved_def)

lemma re_sub_reserved_id:
  "set s \<inter> set reserved = {} \<Longrightarrow> re_sub_reserved s = s"
  unfolding re_sub_reserved_def by (induction s) auto

lemma sanitize_reserved_free: "set (sanitize_filename x) \<inter> set reserved = {}"
proof -
  have "set (sanitize_filename x) \<subseteq> set (re_sub_reserved x)"
    unfolding sanitize_filename_def
    using set_strip set_take_subset by fastforce
  with re_sub_reserved_free [of x] show ?thesis by blast
qed

lemma sanitize_length: "length (sanitize_filename x) \<le> 200"
  by (simp add: sanitize_filename_def)

lemma sanitize_twice: "sanitize_filename (sanitize_filename x) = rstrip (sanitize_filename x)"
proof -
  let ?y = "sanitize_filename x"
  have 1: "re_sub_reserved ?y = ?y"
    by (rule re_sub_reserved_id [OF sanitize_reserved_free])
  have "prefix ?y (strip (re_sub_reserved x))"
    by (simp add: sanitize_filename_def take_is_prefix)
  then have 2: "lstrip ?y = ?y"
    by (rule lstrip_prefix_closed [OF lstrip_strip])
  have "length (rstrip ?y) \<le> length ?y"
    using rstrip_prefix prefix_length_le by blast
  then have 3: "take 200 (rstrip ?y) = rstrip ?y"
    using sanitize_length [of x] by simp
  show ?thesis
    by (subst sanitize_filename_def) (simp add: 1 strip_def 2 3)
qed

lemma sanitize_fixed_short:
  assumes "length (strip (re_sub_reserved x)) \<le> 200"
  shows "sanitize_filename (sanitize_filename x) = sanitize_filename x"
proof -
  from assms have "sanitize_filename x = strip (re_sub_reserved x)"
    by (simp add: sanitize_filename_def)
  then have "rstrip (sanitize_filename x) = sanitize_filename x"
    by (metis rstrip_idem strip_def)
  then show ?thesis by (simp add: sanitize_twice)
qed

lemma lstrip_letters:
  "0 < n \<Longrightarrow> dropWhile isspace (replicate n 97 @ r) = replicate n 97 @ r"
  by (cases n) (simp_all add: isspace_def)

lemma sanitize_long_name:
  "sanitize_filename (replicate 199 97 @ [32, 98]) = replicate 199 97 @ [32]"
proof -
  have a: "re_sub_reserved (replicate 199 97 @ [32, 98]) = replicate 199 97 @ [32, 98]"
    by (simp add: re_sub_reserved_def reserved_def)
  have b: "strip (replicate 199 97 @ [32, 98]) = replicate 199 97 @ [32, 98]"
    by (simp add: strip_def lstrip_def rstrip_def lstrip_letters isspace_def)
  show ?thesis
    by (simp add: sanitize_filename_def a b)
qed

text \<open>
  Claim C2, as stated, at a concrete input: a name of 199 letters \<open>a\<close>, one space and a
  letter \<open>b\<close> contains no reserved character and no surrounding white space, so only the
  cut at 200 applies and leaves the space at the end; sanitizing the output again strips
  that space. The output is not a fixed point.
\<close>

theorem sanitize_filename_not_fixed_point:
  "sanitize_filename (sanitize_filename (replicate 199 97 @ [32, 98]))
     \<noteq> sanitize_filename (replicate 199 97 @ [32, 98])"
proof -
  have "sanitize_filename (sanitize_filename (replicate 199 97 @ [32, 98]))
          = rstrip (sanitize_filename (replicate 199 97 @ [32, 98]))"
    by (rule sanitize_twice)
  also have "\<dots> = rstrip (replicate 199 97 @ [32])"
    by (simp only: sanitize_long_name)
  also have "\<dots> = replicate 199 97"
    by (simp add: rstrip_def isspace_def)
  finally show ?thesis
    by (simp add: sanitize_long_name)
qed

text \<open>
  Claim C2, amended: for every input string the output of the sanitizer contains none of
  the reserved characters and has at most 200 characters; sanitizing the output again only
  strips white space from its end (white space that the cut at 200 left there), so the
  output is a fixed point whenever the name with its reserved characters replaced and its
  surrounding white space stripped has at most 200 characters.
\<close>

theorem sanitize_filename_sound:
  "set (sanitize_filename x) \<inter> set reserved = {}
   \<and> length (sanitize_filename x) \<le> 200
   \<and> sanitize_filename (sanitize_filename x) = rstrip (sanitize_filename x)
   \<and> (length (strip (re_sub_reserved x)) \<le> 200
        \<longrightarrow> sanitize_filename (sanitize_filename x) = sanitize_filename x)"
  using sanitize_reserved_free sanitize_length sanitize_twice sanitize_fixed_short
  by blast

theorem sanitize_filename_sound_witness:
  "length (strip (re_sub_reserved (py '' a/b:c.srt ''))) \<le> 200
   \<and> sanitize_filename (py '' a/b:c.srt '') = py ''a_b_c.srt''
   \<and> sanitize_filename (sanitize_filename (py '' a/b:c.srt ''))
       = sanitize_filename (py '' a/b:c.srt '')"
proof -
  have e: "strip (re_sub_reserved (py '' a/b:c.srt '')) = py ''a_b_c.srt''"
    by (simp add: py_def strip_def lstrip_def rstrip_def re_sub_reserved_def reserved_def
        isspace_def)
  have l: "length (strip (re_sub_reserved (py '' a/b:c.srt ''))) \<le> 200"
    unfolding e by (simp add: py_def)
  have s: "sanitize_filename (py '' a/b:c.srt '') = py ''a_b_c.srt''"
    unfolding sanitize_filename_def e by (simp add: py_def)
  from sanitize_filename_sound [of "py '' a/b:c.srt ''"] l s show ?thesis
    by blast
qed

section \<open>Traces of the downloader\<close>

lemma appends_ret: "appends Q (ret a)"
  by (simp add: appends_def ret_def)

lemma appends_raise: "appends Q (raise e)"
  by (simp add: appends_def raise_def)

lemma appends_andthen:
  assumes "appends Q m" and "\<And>a. appends Q (f a)"
  shows "appends Q (andthen m f)"
  unfolding appends_def
proof
  fix w
  from assms(1) obtain evs where m: "trace (snd (m w)) = trace w @ evs" "list_all Q evs"
    unfolding appends_def by blast
  show "\<exists>evs. trace (snd (andthen m f w)) = trace w @ evs \<and> list_all Q evs"
  proof (cases "m w")
    case (Pair r w')
    show ?thesis
    proof (cases r)
      case (Inl e)
      with Pair m show ?thesis by (auto simp: andthen_def)
    next
      case (Inr a)
      from assms(2) [of a] obtain evs' where
        "trace (snd (f a w')) = trace w' @ evs'" "list_all Q evs'"
        unfolding appends_def by blast
      with Pair Inr m show ?thesis by (auto simp: andthen_def)
    qed
  qed
qed

lemma appends_log: "Q (Log lv) \<Longrightarrow> appends Q (log lv)"
  by (simp add: appends_def log_def emit_def)

lemma appends_makedirs: "Q (Makedirs d) \<Longrightarrow> appends Q (os_makedirs env d)"
  by (auto simp: appends_def os_makedirs_def emit_def Let_def split: option.splits node.splits)

lemma appends_getsize: "appends Q (os_path_getsize env p)"
  by (auto simp: appends_def os_path_getsize_def split: option.splits node.splits)

lemma appends_stream: "Q (HttpGet url rng) \<Longrightarrow> appends Q (session_stream env url rng)"
  by (simp add: appends_def session_stream_def emit_def)

lemma appends_open: "Q (Open p m) \<Longrightarrow> appends Q (open_file env p m)"
  by (auto simp: appends_def open_file_def emit_def Let_def split: option.splits node.splits)

lemma appends_write_chunks: "appends Q (write_chunks p r)"
  by (auto simp: appends_def write_chunks_def write_file_def split: option.splits)

lemma appends_raise_for_status: "appends Q (raise_for_status r)"
  by (simp add: raise_for_status_def appends_ret appends_raise)

lemma appends_total_size: "appends Q (total_size r it)"
  by (simp add: total_size_def appends_ret appends_raise split: option.splits)

lemma appends_if_world:
  assumes "appends Q m1" and "appends Q m2"
  shows "appends Q (\<lambda>w. if b w then m1 w else m2 w)"
  using assms unfolding appends_def by auto

lemma appends_already_complete: "appends within_attempt (already_complete env it p)"
proof -
  have "already_complete env it p = (\<lambda>w. if os_path_exists w p then
        andthen (os_path_getsize env p) (\<lambda>local_size.
          if int local_size = Size it then andthen (log Info) (\<lambda>_. ret True)
          else andthen (log Info) (\<lambda>_. ret False)) w
      else ret False w)"
    by (rule ext) (simp add: already_complete_def)
  then show ?thesis
    by (simp add: appends_if_world appends_andthen appends_getsize appends_log appends_ret)
qed

lemma appends_range_header: "appends Q (range_header env p)"
proof -
  have "range_header env p = (\<lambda>w. if os_path_exists w p
      then andthen (os_path_getsize env p) (\<lambda>n. ret (Some n)) w
      else ret None w)"
    by (rule ext) (simp add: range_header_def)
  then show ?thesis
    by (simp add: appends_if_world appends_andthen appends_getsize appends_ret)
qed

lemma appends_fetch_and_write: "appends within_attempt (fetch_and_write env it p url)"
  unfolding fetch_and_write_def
  by (intro appends_andthen appends_range_header appends_stream appends_raise_for_status
      appends_total_size appends_open appends_write_chunks) simp_all

lemma appends_after_resolution:
  "appends within_attempt (\<lambda>w. andthen (os_makedirs env (dirname p)) (\<lambda>_.
     andthen (already_complete env it p) (\<lambda>complete.
       if complete then ret True
       else andthen (fetch_and_write env it p url) (\<lambda>_.
            andthen (log Info) (\<lambda>_. ret True)))) w)"
  by (intro appends_andthen appends_makedirs appends_already_complete)
     (simp_all add: appends_ret appends_andthen appends_fetch_and_write appends_log)

lemma attempt_trace:
  "\<exists>evs. trace (snd (download_attempt env it p w)) = trace w @ DownloadInfo (FileId it) # evs
         \<and> list_all within_attempt evs"
proof (cases "download_info env (clock w) it")
  case (Inl e)
  then show ?thesis
    by (simp add: download_attempt_def download_try_def andthen_def client_download_info_def
        emit_def log_def raise_def)
next
  case (Inr url)
  let ?w1 = "emit (DownloadInfo (FileId it)) w"
  let ?rest = "\<lambda>w. andthen (os_makedirs env (dirname p)) (\<lambda>_.
     andthen (already_complete env it p) (\<lambda>complete.
       if complete then ret True
       else andthen (fetch_and_write env it p url) (\<lambda>_.
            andthen (log Info) (\<lambda>_. ret True)))) w"
  from appends_after_resolution [of env p it url]
  obtain evs where evs: "trace (snd (?rest ?w1)) = trace ?w1 @ evs" "list_all within_attempt evs"
    unfolding appends_def by blast
  have tr: "download_try env it p w = ?rest ?w1"
    using Inr by (simp add: download_try_def andthen_def [of "client_download_info env it"]
        client_download_info_def)
  show ?thesis
  proof (cases "?rest ?w1")
    case (Pair r w')
    with evs tr show ?thesis
      by (cases r) (auto simp: download_attempt_def emit_def andthen_def log_def raise_def)
  qed
qed

lemma retrying_three_failures:
  assumes "isl (fst (download_attempt env it p w))"
    and "isl (fst (download_attempt env it p (second_start env it p w)))"
    and "isl (fst (download_attempt env it p (third_start env it p w)))"
  shows "\<exists>e a1 a2 a3 w'. retrying env it p 1 w = (Inl (RetryError e), w')
     \<and> trace w' = trace w @ DownloadInfo (FileId it) # a1 @ [Log Warning, Sleep 2]
                     @ DownloadInfo (FileId it) # a2 @ [Log Warning, Sleep 2]
                     @ DownloadInfo (FileId it) # a3
     \<and> list_all within_attempt (a1 @ a2 @ a3)"
proof -
  obtain e1 w1 where 1: "download_attempt env it p w = (Inl e1, w1)"
    using assms(1) by (metis isl_def prod.collapse)
  let ?v1 = "sleep (wait_exponential 1 2 10 1) (emit (Log Warning) w1)"
  have s2: "second_start env it p w = ?v1"
    by (simp add: second_start_def retry_start_def 1)
  obtain e2 w2 where 2: "download_attempt env it p ?v1 = (Inl e2, w2)"
    using assms(2) unfolding s2 by (metis isl_def prod.collapse)
  let ?v2 = "sleep (wait_exponential 1 2 10 (Suc 1)) (emit (Log Warning) w2)"
  have s3: "third_start env it p w = ?v2"
    unfolding third_start_def s2 2 by (simp add: retry_start_def numeral_2_eq_2)
  obtain e3 w3 where 3: "download_attempt env it p ?v2 = (Inl e3, w3)"
    using assms(3) unfolding s3 by (metis isl_def prod.collapse)
  have r3: "retrying env it p (Suc (Suc 1)) ?v2 = (Inl (RetryError e3), w3)"
    by (subst retrying.simps, subst 3) (simp add: MAX_RETRIES_def)
  have r2: "retrying env it p (Suc 1) ?v1 = (Inl (RetryError e3), w3)"
    by (subst retrying.simps, subst 2, subst r3 [symmetric]) (simp add: MAX_RETRIES_def)
  have r1: "retrying env it p 1 w = (Inl (RetryError e3), w3)"
    by (subst retrying.simps, subst 1, subst r2 [symmetric]) (simp add: MAX_RETRIES_def)
  from attempt_trace [of env it p w] 1 obtain a1 where
    a1: "trace w1 = trace w @ DownloadInfo (FileId it) # a1" "list_all within_attempt a1"
    by auto
  from attempt_trace [of env it p ?v1] 2 obtain a2 where
    a2: "trace w2 = trace ?v1 @ DownloadInfo (FileId it) # a2" "list_all within_attempt a2"
    by auto
  from attempt_trace [of env it p ?v2] 3 obtain a3 where
    a3: "trace w3 = trace ?v2 @ DownloadInfo (FileId it) # a3" "list_all within_attempt a3"
    by auto
  have "trace w3 = trace w @ DownloadInfo (FileId it) # a1 @ [Log Warning, Sleep 2]
                     @ DownloadInfo (FileId it) # a2 @ [Log Warning, Sleep 2]
                     @ DownloadInfo (FileId it) # a3"
    using a1 a2 a3 by (simp add: sleep_def emit_def wait_exponential_def)
  with r1 a1(2) a2(2) a3(2) show ?thesis by auto
qed


lemma retrying_exhausted:
  assumes "\<forall>w. isl (fst (download_attempt env it p w))"
  shows "\<exists>e a1 a2 a3 w'. retrying env it p 1 w = (Inl (RetryError e), w')
     \<and> trace w' = trace w @ DownloadInfo (FileId it) # a1 @ [Log Warning, Sleep 2]
                     @ DownloadInfo (FileId it) # a2 @ [Log Warning, Sleep 2]
                     @ DownloadInfo (FileId it) # a3
     \<and> list_all within_attempt (a1 @ a2 @ a3)"
proof -
  obtain e1 w1 where 1: "download_attempt env it p w = (Inl e1, w1)"
    using assms by (metis isl_def prod.collapse)
  let ?v1 = "sleep (wait_exponential 1 2 10 1) (emit (Log Warning) w1)"
  obtain e2 w2 where 2: "download_attempt env it p ?v1 = (Inl e2, w2)"
    using assms by (metis isl_def prod.collapse)
  let ?v2 = "sleep (wait_exponential 1 2 10 (Suc 1)) (emit (Log Warning) w2)"
  obtain e3 w3 where 3: "download_attempt env it p ?v2 = (Inl e3, w3)"
    using assms by (metis isl_def prod.collapse)
  have r3: "retrying env it p (Suc (Suc 1)) ?v2 = (Inl (RetryError e3), w3)"
    by (subst retrying.simps, subst 3) (simp add: MAX_RETRIES_def)
  have r2: "retrying env it p (Suc 1) ?v1 = (Inl (RetryError e3), w3)"
    by (subst retrying.simps, subst 2, subst r3 [symmetric]) (simp add: MAX_RETRIES_def)
  have r1: "retrying env it p 1 w = (Inl (RetryError e3), w3)"
    by (subst retrying.simps, subst 1, subst r2 [symmetric]) (simp add: MAX_RETRIES_def)
  from attempt_trace [of env it p w] 1 obtain a1 where
    a1: "trace w1 = trace w @ DownloadInfo (FileId it) # a1" "list_all within_attempt a1"
    by auto
  from attempt_trace [of env it p ?v1] 2 obtain a2 where
    a2: "trace w2 = trace ?v1 @ DownloadInfo (FileId it) # a2" "list_all within_attempt a2"
    by auto
  from attempt_trace [of env it p ?v2] 3 obtain a3 where
    a3: "trace w3 = trace ?v2 @ DownloadInfo (FileId it) # a3" "list_all within_attempt a3"
    by auto
  have "trace w3 = trace w @ DownloadInfo (FileId it) # a1 @ [Log Warning, Sleep 2]
                     @ DownloadInfo (FileId it) # a2 @ [Log Warning, Sleep 2]
                     @ DownloadInfo (FileId it) # a3"
    using a1 a2 a3 by (simp add: sleep_def emit_def wait_exponential_def)
  with r1 a1(2) a2(2) a3(2) show ?thesis by auto
qed

lemma clock_emit [simp]: "clock (emit ev w) = Suc (clock w)"
  by (simp add: clock_def emit_def)

lemma nodes_emit [simp]: "nodes (emit ev w) = nodes w"
  by (simp add: emit_def)

lemma trace_emit [simp]: "trace (emit ev w) = trace w @ [ev]"
  by (simp add: emit_def)

lemma download_try_prefix:
  assumes "download_info env (clock w) it = Inr url"
    and "os_fault env (Suc (clock w)) (dirname p) = None"
    and "parent_ok w p"
  shows "download_try env it p w =
     andthen (already_complete env it p) (\<lambda>complete.
       if complete then ret True
       else andthen (fetch_and_write env it p url) (\<lambda>_.
            andthen (log Info) (\<lambda>_. ret True))) (after_makedirs it p w)"
  using assms
  by (cases "nodes w (dirname p)")
     (auto simp: download_try_def andthen_def [of "client_download_info env it"]
        andthen_def [of "os_makedirs env (dirname p)"] client_download_info_def os_makedirs_def
        parent_ok_def after_makedirs_def Let_def split: node.splits)

lemma nodes_after_makedirs:
  "parent_ok w p \<Longrightarrow> nodes (after_makedirs it p w) p = nodes w p"
  by (auto simp: after_makedirs_def parent_ok_def Let_def split: option.splits node.splits)

lemma trace_after_makedirs:
  "trace (after_makedirs it p w) = trace w @ [DownloadInfo (FileId it), Makedirs (dirname p)]"
  by (simp add: after_makedirs_def Let_def split: option.splits node.splits)

lemma retrying_success:
  "download_attempt env it p w = (Inr r, w') \<Longrightarrow> retrying env it p n w = (Inr r, w')"
  by (subst retrying.simps) simp

lemma complete_file:
  assumes fl: "nodes w p = Some (File c)" and size: "int (length c) = Size it"
    and url: "\<forall>t. download_info env t it = Inr url"
    and os: "\<forall>t. os_fault env t (dirname p) = None"
    and par: "parent_ok w p"
  shows "download_file env it p w = (Inr True, emit (Log Info) (after_makedirs it p w))"
proof -
  have n: "nodes (after_makedirs it p w) p = Some (File c)"
    using nodes_after_makedirs [OF par] fl by simp
  have "download_try env it p w = (Inr True, emit (Log Info) (after_makedirs it p w))"
    using url os size
    by (simp add: download_try_prefix [OF _ _ par, of env it url] andthen_def already_complete_def
        os_path_exists_def os_path_getsize_def n log_def ret_def)
  then have "download_attempt env it p w = (Inr True, emit (Log Info) (after_makedirs it p w))"
    by (simp add: download_attempt_def)
  then show ?thesis
    unfolding download_file_def by (rule retrying_success)
qed

lemmas download_steps =
  already_complete_def fetch_and_write_def range_header_def session_stream_def
  raise_for_status_def total_size_def open_file_def write_chunks_def write_file_def
  andthen_def ret_def raise_def log_def os_path_exists_def os_path_getsize_def Let_def

lemma resume_partial:
  assumes fl: "nodes w p = Some (File c)" and ne: "int (length c) \<noteq> Size it"
    and url: "\<forall>t. download_info env t it = Inr url"
    and osd: "\<forall>t. os_fault env t (dirname p) = None"
    and osp: "\<forall>t. os_fault env t p = None"
    and par: "parent_ok w p"
    and get: "\<forall>t. http_get env t url (Some (length c)) = Inr r"
    and ok: "200 \<le> status r" "status r < 300" "content_length r \<noteq> Some None"
      "stream_error r = None"
  shows "\<exists>w'. download_file env it p w = (Inr True, w')
    \<and> trace w' = trace w @ [DownloadInfo (FileId it), Makedirs (dirname p), Log Info,
                  HttpGet url (Some (length c)), Open p Ab, Log Info]
    \<and> nodes w' p = Some (File (c @ body r))"
proof -
  have n: "nodes (after_makedirs it p w) p = Some (File c)"
    using nodes_after_makedirs [OF par] fl by simp
  have pre: "download_try env it p w =
     andthen (already_complete env it p) (\<lambda>complete.
       if complete then ret True
       else andthen (fetch_and_write env it p url) (\<lambda>_.
            andthen (log Info) (\<lambda>_. ret True))) (after_makedirs it p w)"
    using url osd by (intro download_try_prefix [OF _ _ par]) auto
  obtain w' where t: "download_try env it p w = (Inr True, w')"
    and tr: "trace w' = trace w @ [DownloadInfo (FileId it), Makedirs (dirname p), Log Info,
                  HttpGet url (Some (length c)), Open p Ab, Log Info]"
    and nd: "nodes w' p = Some (File (c @ body r))"
    using ne osp get ok
    by (cases "content_length r")
       (auto simp: pre download_steps n trace_after_makedirs split: option.splits)
  from t have "download_attempt env it p w = (Inr True, w')"
    by (simp add: download_attempt_def)
  then have "download_file env it p w = (Inr True, w')"
    unfolding download_file_def by (rule retrying_success)
  with tr nd show ?thesis by blast
qed

lemma nodes_after_makedirs_other:
  "q \<noteq> dirname p \<Longrightarrow> nodes (after_makedirs it p w) q = nodes w q"
  by (simp add: after_makedirs_def Let_def split: option.splits)

lemma download_fresh:
  assumes fl: "nodes w p = None"
    and url: "\<forall>t. download_info env t it = Inr url"
    and osd: "\<forall>t. os_fault env t (dirname p) = None"
    and osp: "\<forall>t. os_fault env t p = None"
    and par: "parent_ok w p"
    and get: "\<forall>t. http_get env t url None = Inr r"
    and ok: "200 \<le> status r" "status r < 300" "content_length r \<noteq> Some None"
      "stream_error r = None"
  shows "\<exists>w'. download_file env it p w = (Inr True, w')
    \<and> trace w' = trace w @ [DownloadInfo (FileId it), Makedirs (dirname p),
                  HttpGet url None, Open p Wb, Log Info]
    \<and> nodes w' p = Some (File (body r))
    \<and> (\<forall>q. q \<noteq> p \<and> q \<noteq> dirname p \<longrightarrow> nodes w' q = nodes w q)"
proof -
  have n: "nodes (after_makedirs it p w) p = None"
    using nodes_after_makedirs [OF par] fl by simp
  have pre: "download_try env it p w =
     andthen (already_complete env it p) (\<lambda>complete.
       if complete then ret True
       else andthen (fetch_and_write env it p url) (\<lambda>_.
            andthen (log Info) (\<lambda>_. ret True))) (after_makedirs it p w)"
    using url osd by (intro download_try_prefix [OF _ _ par]) auto
  obtain w' where t: "download_try env it p w = (Inr True, w')"
    and tr: "trace w' = trace w @ [DownloadInfo (FileId it), Makedirs (dirname p),
                  HttpGet url None, Open p Wb, Log Info]"
    and nd: "nodes w' p = Some (File (body r))"
    and others: "\<forall>q. q \<noteq> p \<and> q \<noteq> dirname p \<longrightarrow> nodes w' q = nodes w q"
    using osp get ok
    by (cases "content_length r")
       (auto simp: pre download_steps n trace_after_makedirs nodes_after_makedirs_other
          split: option.splits)
  from t have "download_attempt env it p w = (Inr True, w')"
    by (simp add: download_attempt_def)
  then have "download_file env it p w = (Inr True, w')"
    unfolding download_file_def by (rule retrying_success)
  with tr nd others show ?thesis by blast
qed


lemma retrying_appends:
  "\<exists>evs. trace (snd (retrying env it p n w)) = trace w @ evs"
proof (induction env it p n w rule: retrying.induct)
  case (1 env it p n w)
  obtain r w1 where a: "download_attempt env it p w = (r, w1)"
    by (cases "download_attempt env it p w")
  from attempt_trace [of env it p w] a obtain evs1 where
    t1: "trace w1 = trace w @ DownloadInfo (FileId it) # evs1"
    by auto
  show ?case
  proof (cases r)
    case (Inr b)
    with a t1 show ?thesis
      by (subst retrying.simps) simp
  next
    case (Inl e)
    show ?thesis
    proof (cases "MAX_RETRIES \<le> n")
      case True
      with a Inl t1 show ?thesis
        by (subst retrying.simps) simp
    next
      case False
      let ?v = "sleep (wait_exponential 1 2 10 n) (emit (Log Warning) w1)"
      from "1.IH" [OF a [symmetric, unfolded Inl] _ False] a Inl
      obtain evs2 where "trace (snd (retrying env it p (Suc n) ?v)) = trace ?v @ evs2"
        by auto
      with a Inl False t1 show ?thesis
        by (subst retrying.simps) (simp add: sleep_def)
    qed
  qed
qed

lemma download_file_extends_first_attempt:
  "\<exists>evs. trace (snd (download_file env it p w))
           = trace (snd (download_attempt env it p w)) @ evs"
proof -
  obtain r w1 where a: "download_attempt env it p w = (r, w1)"
    by (cases "download_attempt env it p w")
  show ?thesis
  proof (cases r)
    case (Inr b)
    with a show ?thesis
      unfolding download_file_def by (subst retrying.simps) simp
  next
    case (Inl e)
    let ?v = "sleep (wait_exponential 1 2 10 1) (emit (Log Warning) w1)"
    from retrying_appends [of env it p "Suc 1" ?v] obtain evs where
      "trace (snd (retrying env it p (Suc 1) ?v)) = trace ?v @ evs"
      by blast
    with a Inl show ?thesis
      unfolding download_file_def
      by (subst retrying.simps) (simp add: MAX_RETRIES_def sleep_def)
  qed
qed

lemma fetch_starts_with_get:
  assumes "range_header env p v = (Inr rng, v)"
  shows "\<exists>evs. trace (snd (fetch_and_write env it p url v)) = trace v @ HttpGet url rng # evs"
proof (cases "http_get env (clock v) url rng")
  case (Inl e)
  with assms show ?thesis
    by (simp add: fetch_and_write_def andthen_def session_stream_def)
next
  case (Inr r)
  let ?v1 = "emit (HttpGet url rng) v"
  let ?cont = "andthen (raise_for_status r) (\<lambda>_.
     andthen (total_size r it) (\<lambda>_.
     andthen (open_file env p (if rng \<noteq> None then Ab else Wb)) (\<lambda>_.
     write_chunks p r)))"
  have "appends (\<lambda>ev. True) ?cont"
    by (intro appends_andthen appends_raise_for_status appends_total_size appends_open
        appends_write_chunks) simp
  then obtain evs where "trace (snd (?cont ?v1)) = trace ?v1 @ evs"
    unfolding appends_def by blast
  moreover have "fetch_and_write env it p url v = ?cont ?v1"
    using assms Inr
    by (simp add: fetch_and_write_def andthen_def [of "range_header env p"]
        andthen_def [of "session_stream env url rng"] session_stream_def)
  ultimately show ?thesis
    by simp
qed

lemma attempt_after_fetch:
  assumes "download_try env it p w =
     andthen (fetch_and_write env it p url) (\<lambda>_. andthen (log Info) (\<lambda>_. ret True)) v"
    and "\<exists>evs. trace (snd (fetch_and_write env it p url v)) = trace v @ ev # evs"
  shows "\<exists>evs. trace (snd (download_attempt env it p w)) = trace v @ ev # evs"
proof -
  from assms(2) obtain evs where
    f: "trace (snd (fetch_and_write env it p url v)) = trace v @ ev # evs"
    by blast
  obtain r v' where fw: "fetch_and_write env it p url v = (r, v')"
    by (cases "fetch_and_write env it p url v")
  show ?thesis
    using f fw assms(1)
    by (cases r) (auto simp: download_attempt_def andthen_def log_def ret_def raise_def)
qed

lemma partial_first_attempt:
  assumes fl: "nodes w p = Some (File c)" and ne: "int (length c) \<noteq> Size it"
    and url: "\<forall>t. download_info env t it = Inr url"
    and osd: "\<forall>t. os_fault env t (dirname p) = None"
    and par: "parent_ok w p"
  shows "\<exists>evs. trace (snd (download_attempt env it p w))
           = trace w @ [DownloadInfo (FileId it), Makedirs (dirname p), Log Info,
                        HttpGet url (Some (length c))] @ evs"
proof -
  let ?v = "emit (Log Info) (after_makedirs it p w)"
  have n: "nodes (after_makedirs it p w) p = Some (File c)"
    using nodes_after_makedirs [OF par] fl by simp
  have pre: "download_try env it p w =
     andthen (already_complete env it p) (\<lambda>complete.
       if complete then ret True
       else andthen (fetch_and_write env it p url) (\<lambda>_.
            andthen (log Info) (\<lambda>_. ret True))) (after_makedirs it p w)"
    using url osd by (intro download_try_prefix [OF _ _ par]) auto
  have ac: "already_complete env it p (after_makedirs it p w) = (Inr False, ?v)"
    using ne by (simp add: already_complete_def os_path_exists_def os_path_getsize_def n
        andthen_def log_def ret_def)
  have t: "download_try env it p w =
     andthen (fetch_and_write env it p url) (\<lambda>_. andthen (log Info) (\<lambda>_. ret True)) ?v"
    unfolding pre by (simp add: andthen_def [of "already_complete env it p"] ac)
  have rh: "range_header env p ?v = (Inr (Some (length c)), ?v)"
    by (simp add: range_header_def os_path_exists_def os_path_getsize_def n andthen_def ret_def)
  from attempt_after_fetch [OF t fetch_starts_with_get [OF rh]]
  show ?thesis
    by (simp add: trace_after_makedirs)
qed

lemma fresh_first_attempt:
  assumes fl: "nodes w p = None"
    and url: "\<forall>t. download_info env t it = Inr url"
    and osd: "\<forall>t. os_fault env t (dirname p) = None"
    and par: "parent_ok w p"
  shows "\<exists>evs. trace (snd (download_attempt env it p w))
           = trace w @ [DownloadInfo (FileId it), Makedirs (dirname p), HttpGet url None] @ evs"
proof -
  let ?v = "after_makedirs it p w"
  have n: "nodes ?v p = None"
    using nodes_after_makedirs [OF par] fl by simp
  have pre: "download_try env it p w =
     andthen (already_complete env it p) (\<lambda>complete.
       if complete then ret True
       else andthen (fetch_and_write env it p url) (\<lambda>_.
            andthen (log Info) (\<lambda>_. ret True))) ?v"
    using url osd by (intro download_try_prefix [OF _ _ par]) auto
  have ac: "already_complete env it p ?v = (Inr False, ?v)"
    by (simp add: already_complete_def os_path_exists_def n ret_def)
  have t: "download_try env it p w =
     andthen (fetch_and_write env it p url) (\<lambda>_. andthen (log Info) (\<lambda>_. ret True)) ?v"
    unfolding pre by (simp add: andthen_def [of "already_complete env it p"] ac)
  have rh: "range_header env p ?v = (Inr None, ?v)"
    by (simp add: range_header_def os_path_exists_def n ret_def)
  from attempt_after_fetch [OF t fetch_starts_with_get [OF rh]]
  show ?thesis
    by (simp add: trace_after_makedirs)
qed

lemma retrying_unroll:
  assumes "download_attempt env it p w = (Inl e1, w1)"
    and "download_attempt env it p (retry_start 1 w1) = (Inl e2, w2)"
    and "download_attempt env it p (retry_start 2 w2) = (Inl e3, w3)"
  shows "download_file env it p w = (Inl (RetryError e3), w3)"
proof -
  have r3: "retrying env it p (Suc (Suc 1)) (retry_start 2 w2) = (Inl (RetryError e3), w3)"
    by (subst retrying.simps, subst assms(3)) (simp add: MAX_RETRIES_def)
  have r2: "retrying env it p (Suc 1) (retry_start 1 w1) = (Inl (RetryError e3), w3)"
    by (subst retrying.simps, subst assms(2), subst r3 [symmetric])
       (simp add: MAX_RETRIES_def retry_start_def numeral_2_eq_2)
  show ?thesis
    unfolding download_file_def
    by (subst retrying.simps, subst assms(1), subst r2 [symmetric])
       (simp add: MAX_RETRIES_def retry_start_def)
qed

lemma down_attempt:
  "download_attempt remote_down it p w
     = (Inl ClientError, emit (Log Error) (emit (DownloadInfo (FileId it)) w))"
  by (simp add: download_attempt_def download_try_def andthen_def client_download_info_def
      remote_down_def remote_ok_def log_def raise_def)

lemma down_run:
  "download_file remote_down it p w
     = (Inl (RetryError ClientError),
        emit (Log Error) (emit (DownloadInfo (FileId it))
          (retry_start 2 (emit (Log Error) (emit (DownloadInfo (FileId it))
            (retry_start 1 (emit (Log Error) (emit (DownloadInfo (FileId it)) w))))))))"
  by (rule retrying_unroll) (rule down_attempt)+

lemma lib_srt_parent: "dirname lib_srt = lib"
  by (simp add: dirname_def lib_srt_def lib_def py_def)

lemma lib_srt_neq: "lib \<noteq> lib_srt"
  by (simp add: lib_srt_def lib_def py_def)

lemma parent_ok_with_srt: "parent_ok (with_srt c) lib_srt"
  by (simp add: parent_ok_def lib_srt_parent with_srt_def lib_srt_neq)
     (simp add: lib_def py_def)

lemma parent_ok_empty_lib: "parent_ok empty_lib lib_srt"
  by (simp add: parent_ok_def lib_srt_parent empty_lib_def lib_srt_neq)
     (simp add: lib_def py_def)

section \<open>The retry bound\<close>

lemma sleeps_append: "sleeps (xs @ ys) = sleeps xs @ sleeps ys"
  by (induction xs rule: sleeps.induct) simp_all

lemma sleeps_within_attempt: "list_all within_attempt evs \<Longrightarrow> sleeps evs = []"
  by (induction evs rule: sleeps.induct) simp_all

lemma wait_exponential_bounds:
  "2 \<le> wait_exponential 1 2 10 n \<and> wait_exponential 1 2 10 n \<le> 10
   \<and> wait_exponential 1 2 10 n \<le> wait_exponential 1 2 10 (Suc n)"
proof -
  define a b :: nat where "a = 2 ^ (n - 1)" and "b = 2 ^ (Suc n - 1)"
  have "a \<le> b"
    unfolding a_def b_def by (rule power_increasing) simp_all
  then have "2 \<le> max (max 0 2) (min (1 * a) 10) \<and> max (max 0 2) (min (1 * a) 10) \<le> 10
      \<and> max (max 0 2) (min (1 * a) 10) \<le> max (max 0 2) (min (1 * b) 10)"
    by auto
  then show ?thesis
    unfolding wait_exponential_def a_def b_def .
qed

lemma down_fails: "isl (fst (download_attempt remote_down it p w))"
  by (simp add: download_attempt_def download_try_def andthen_def client_download_info_def
      remote_down_def remote_ok_def log_def raise_def)

lemma get_fails_attempt:
  assumes "nodes v lib_srt = None" and "nodes v lib = Some Dir"
  shows "download_attempt remote_get_fails movie_srt lib_srt v
     = (Inl TransportError,
        emit (Log Error) (emit (HttpGet (py ''http://cdn/f'') None)
          (emit (Makedirs lib) (emit (DownloadInfo 3) v))))"
proof -
  have par: "parent_ok v lib_srt"
    using assms(2) lib_srt_neq by (simp add: parent_ok_def lib_srt_parent) (simp add: lib_def py_def)
  have am: "after_makedirs movie_srt lib_srt v = emit (Makedirs lib) (emit (DownloadInfo 3) v)"
    using assms(2) by (simp add: after_makedirs_def lib_srt_parent movie_srt_def)
  have pre: "download_try remote_get_fails movie_srt lib_srt v =
     andthen (already_complete remote_get_fails movie_srt lib_srt) (\<lambda>complete.
       if complete then ret True
       else andthen (fetch_and_write remote_get_fails movie_srt lib_srt (py ''http://cdn/f'')) (\<lambda>_.
            andthen (log Info) (\<lambda>_. ret True))) (after_makedirs movie_srt lib_srt v)"
    by (intro download_try_prefix [OF _ _ par]) (simp_all add: remote_get_fails_def remote_ok_def)
  have "download_try remote_get_fails movie_srt lib_srt v
      = (Inl TransportError, emit (HttpGet (py ''http://cdn/f'') None)
          (emit (Makedirs lib) (emit (DownloadInfo 3) v)))"
  proof -
    have g: "http_get remote_get_fails t u r = Inl TransportError" for t u r
      by (simp add: remote_get_fails_def)
    have n: "nodes (emit (Makedirs lib) (emit (DownloadInfo 3) v)) lib_srt = None"
      using assms(1) by simp
    show ?thesis
      unfolding pre am using assms(1) by (simp add: download_steps g)
  qed
  then show ?thesis
    by (simp add: download_attempt_def andthen_def log_def raise_def)
qed

lemma get_fails_run:
  "download_attempt remote_get_fails movie_srt lib_srt empty_lib
     = (Inl TransportError,
        emit (Log Error) (emit (HttpGet (py ''http://cdn/f'') None)
          (emit (Makedirs lib) (emit (DownloadInfo 3) empty_lib))))"
  "isl (fst (download_attempt remote_get_fails movie_srt lib_srt
          (second_start remote_get_fails movie_srt lib_srt empty_lib)))"
  "isl (fst (download_attempt remote_get_fails movie_srt lib_srt
          (third_start remote_get_fails movie_srt lib_srt empty_lib)))"
proof -
  have n0: "nodes empty_lib lib_srt = None" "nodes empty_lib lib = Some Dir"
    using lib_srt_neq by (auto simp: empty_lib_def)
  show 1: "download_attempt remote_get_fails movie_srt lib_srt empty_lib
     = (Inl TransportError,
        emit (Log Error) (emit (HttpGet (py ''http://cdn/f'') None)
          (emit (Makedirs lib) (emit (DownloadInfo 3) empty_lib))))"
    by (rule get_fails_attempt [OF n0])
  let ?v1 = "second_start remote_get_fails movie_srt lib_srt empty_lib"
  have n1: "nodes ?v1 lib_srt = None" "nodes ?v1 lib = Some Dir"
    using n0 by (simp_all add: second_start_def retry_start_def 1 sleep_def)
  show 2: "isl (fst (download_attempt remote_get_fails movie_srt lib_srt ?v1))"
    by (simp add: get_fails_attempt [OF n1])
  let ?v2 = "third_start remote_get_fails movie_srt lib_srt empty_lib"
  have n2: "nodes ?v2 lib_srt = None" "nodes ?v2 lib = Some Dir"
    using n1 by (simp_all add: third_start_def retry_start_def get_fails_attempt [OF n1] sleep_def)
  show "isl (fst (download_attempt remote_get_fails movie_srt lib_srt ?v2))"
    by (simp add: get_fails_attempt [OF n2])
qed

text \<open>
  Claim C4, amended: a download each of whose three attempts raises (whatever raises: the
  URL resolution, the creation of the directory, the GET, the status check, the opening
  of the file or the stream) makes exactly three attempts, each beginning with its URL
  resolution; between consecutive attempts a warning is logged and then the loop sleeps;
  the two delays are 2 seconds each, every delay of the schedule lies between 2 and 10
  seconds and the schedule never decreases; after the third failed attempt
  \<open>RetryError\<close> is raised to the caller.
\<close>

theorem download_file_retries:
  assumes "isl (fst (download_attempt env it p w))"
    and "isl (fst (download_attempt env it p (second_start env it p w)))"
    and "isl (fst (download_attempt env it p (third_start env it p w)))"
  shows "\<exists>e a1 a2 a3 w'.
      download_file env it p w = (Inl (RetryError e), w')
    \<and> trace w' = trace w @ DownloadInfo (FileId it) # a1 @ [Log Warning, Sleep 2]
                    @ DownloadInfo (FileId it) # a2 @ [Log Warning, Sleep 2]
                    @ DownloadInfo (FileId it) # a3
    \<and> list_all within_attempt (a1 @ a2 @ a3)
    \<and> sleeps (trace w') = sleeps (trace w) @ [2, 2]
    \<and> (\<forall>n. 2 \<le> wait_exponential 1 2 10 n \<and> wait_exponential 1 2 10 n \<le> 10
            \<and> wait_exponential 1 2 10 n \<le> wait_exponential 1 2 10 (Suc n))"
proof -
  from retrying_three_failures [OF assms] obtain e a1 a2 a3 w' where
    r: "retrying env it p 1 w = (Inl (RetryError e), w')"
    and t: "trace w' = trace w @ DownloadInfo (FileId it) # a1 @ [Log Warning, Sleep 2]
                     @ DownloadInfo (FileId it) # a2 @ [Log Warning, Sleep 2]
                     @ DownloadInfo (FileId it) # a3"
    and q: "list_all within_attempt (a1 @ a2 @ a3)"
    by blast
  from q have "sleeps a1 = []" "sleeps a2 = []" "sleeps a3 = []"
    by (simp_all add: sleeps_within_attempt)
  then have "sleeps (trace w') = sleeps (trace w) @ [2, 2]"
    by (simp add: t sleeps_append)
  with r t q wait_exponential_bounds show ?thesis
    unfolding download_file_def by blast
qed

text \<open>
  The amended claim C4 for a server none of whose GET requests gets through, and for a
  remote client that is down.
\<close>

theorem download_file_retries_witness:
  "isl (fst (download_attempt remote_get_fails movie_srt lib_srt empty_lib))
   \<and> isl (fst (download_attempt remote_get_fails movie_srt lib_srt
             (second_start remote_get_fails movie_srt lib_srt empty_lib)))
   \<and> isl (fst (download_attempt remote_get_fails movie_srt lib_srt
             (third_start remote_get_fails movie_srt lib_srt empty_lib)))
   \<and> (\<exists>e. fst (download_file remote_get_fails movie_srt lib_srt empty_lib) = Inl (RetryError e))
   \<and> sleeps (trace (snd (download_file remote_get_fails movie_srt lib_srt empty_lib))) = [2, 2]
   \<and> isl (fst (download_attempt remote_down movie_srt lib_srt empty_lib))
   \<and> (\<exists>e. fst (download_file remote_down movie_srt lib_srt empty_lib) = Inl (RetryError e))"
proof -
  have h1: "isl (fst (download_attempt remote_get_fails movie_srt lib_srt empty_lib))"
    by (simp add: get_fails_run(1))
  have s: "sleeps (trace empty_lib) = []"
    by (simp add: empty_lib_def)
  from download_file_retries [OF h1 get_fails_run(2,3)] s
  have 1: "(\<exists>e. fst (download_file remote_get_fails movie_srt lib_srt empty_lib) = Inl (RetryError e))
     \<and> sleeps (trace (snd (download_file remote_get_fails movie_srt lib_srt empty_lib))) = [2, 2]"
    by auto
  from download_file_retries [OF down_fails down_fails down_fails, of movie_srt lib_srt empty_lib]
  have 2: "\<exists>e. fst (download_file remote_down movie_srt lib_srt empty_lib) = Inl (RetryError e)"
    by auto
  from h1 get_fails_run(2,3) 1 2 down_fails [of movie_srt lib_srt empty_lib] show ?thesis
    by blast
qed

text \<open>
  Claim C4, as stated, at a concrete input: with the remote client down, the delays
  between the three attempts are 2 and 2 seconds, which is not strictly increasing.
\<close>

theorem retry_delays_not_increasing:
  "sleeps (trace (snd (download_file remote_down movie_srt lib_srt empty_lib))) = [2, 2]
   \<and> \<not> sorted_wrt (<) (sleeps (trace (snd (download_file remote_down movie_srt lib_srt empty_lib))))"
proof -
  have h: "\<forall>w. isl (fst (download_attempt remote_down movie_srt lib_srt w))"
    by (simp add: down_fails)
  from retrying_exhausted [OF h, of empty_lib] obtain e a1 a2 a3 w' where
    r: "retrying remote_down movie_srt lib_srt 1 empty_lib = (Inl (RetryError e), w')"
    and t: "trace w' = trace empty_lib @ DownloadInfo (FileId movie_srt) # a1
                     @ [Log Warning, Sleep 2]
                     @ DownloadInfo (FileId movie_srt) # a2 @ [Log Warning, Sleep 2]
                     @ DownloadInfo (FileId movie_srt) # a3"
    and q: "list_all within_attempt (a1 @ a2 @ a3)"
    by blast
  from q have "sleeps a1 = []" "sleeps a2 = []" "sleeps a3 = []"
    by (simp_all add: sleeps_within_attempt)
  then have "sleeps (trace w') = [2, 2]"
    by (simp add: t sleeps_append empty_lib_def)
  with r show ?thesis
    by (simp add: download_file_def)
qed

section \<open>Complete and partial sidecar files\<close>


text \<open>
  Claim C3, amended: once the URL resolution and the creation of the parent directory
  have succeeded, a local file of length \<open>L\<close> with \<open>0 < L\<close> and \<open>L\<close> different from the
  declared size makes the downloader send a GET with a byte range starting at \<open>L\<close>,
  whatever the server answers; when the response is a success (a 2xx status, a readable
  length header, a stream that ends without error) and the file can be opened, the
  received bytes are appended to the existing file. Without a local file the downloader
  requests the whole body and, on the same conditions, writes it to a new file. When the
  server honours the range and \<open>L\<close> is less than the declared size \<open>S\<close>, the final length
  is \<open>S\<close>.
\<close>

theorem download_file_resume:
  assumes url: "\<forall>t. download_info env t it = Inr url"
    and osd: "\<forall>t. os_fault env t (dirname p) = None"
    and par: "parent_ok w p"
  shows "(nodes w p = Some (File c) \<and> 0 < length c \<and> int (length c) \<noteq> Size it
          \<longrightarrow> (\<exists>evs. trace (snd (download_file env it p w))
                        = trace w @ [DownloadInfo (FileId it), Makedirs (dirname p), Log Info,
                                     HttpGet url (Some (length c))] @ evs)
            \<and> (\<forall>r. (\<forall>t. http_get env t url (Some (length c)) = Inr r)
                    \<and> 200 \<le> status r \<and> status r < 300 \<and> content_length r \<noteq> Some None
                    \<and> stream_error r = None \<and> (\<forall>t. os_fault env t p = None)
                 \<longrightarrow> (\<exists>w'. download_file env it p w = (Inr True, w')
                       \<and> trace w' = trace w @ [DownloadInfo (FileId it), Makedirs (dirname p),
                             Log Info, HttpGet url (Some (length c)), Open p Ab, Log Info]
                       \<and> nodes w' p = Some (File (c @ body r))
                       \<and> (\<forall>content. body r = drop (length c) content
                              \<and> length c < length content \<and> int (length content) = Size it
                            \<longrightarrow> int (length (c @ body r)) = Size it))))
       \<and> (nodes w p = None
          \<longrightarrow> (\<exists>evs. trace (snd (download_file env it p w))
                        = trace w @ [DownloadInfo (FileId it), Makedirs (dirname p),
                                     HttpGet url None] @ evs)
            \<and> (\<forall>r. (\<forall>t. http_get env t url None = Inr r)
                    \<and> 200 \<le> status r \<and> status r < 300 \<and> content_length r \<noteq> Some None
                    \<and> stream_error r = None \<and> (\<forall>t. os_fault env t p = None)
                 \<longrightarrow> (\<exists>w'. download_file env it p w = (Inr True, w')
                       \<and> trace w' = trace w @ [DownloadInfo (FileId it), Makedirs (dirname p),
                             HttpGet url None, Open p Wb, Log Info]
                       \<and> nodes w' p = Some (File (body r))
                       \<and> (\<forall>content. body r = content \<and> int (length content) = Size it
                            \<longrightarrow> int (length (body r)) = Size it))))"
proof (intro conjI impI allI)
  assume a: "nodes w p = Some (File c) \<and> 0 < length c \<and> int (length c) \<noteq> Size it"
  then have fl: "nodes w p = Some (File c)" and ne: "int (length c) \<noteq> Size it"
    by simp_all
  from partial_first_attempt [OF fl ne url osd par] obtain evs1 where
    "trace (snd (download_attempt env it p w))
           = trace w @ [DownloadInfo (FileId it), Makedirs (dirname p), Log Info,
                        HttpGet url (Some (length c))] @ evs1"
    by blast
  moreover from download_file_extends_first_attempt [of env it p w] obtain evs2 where
    "trace (snd (download_file env it p w)) = trace (snd (download_attempt env it p w)) @ evs2"
    by blast
  ultimately show "\<exists>evs. trace (snd (download_file env it p w))
                        = trace w @ [DownloadInfo (FileId it), Makedirs (dirname p), Log Info,
                                     HttpGet url (Some (length c))] @ evs"
    by simp
next
  fix r
  assume a: "nodes w p = Some (File c) \<and> 0 < length c \<and> int (length c) \<noteq> Size it"
    and s: "(\<forall>t. http_get env t url (Some (length c)) = Inr r)
                    \<and> 200 \<le> status r \<and> status r < 300 \<and> content_length r \<noteq> Some None
                    \<and> stream_error r = None \<and> (\<forall>t. os_fault env t p = None)"
  from a have fl: "nodes w p = Some (File c)" and ne: "int (length c) \<noteq> Size it"
    by simp_all
  from s have osp: "\<forall>t. os_fault env t p = None"
    and get: "\<forall>t. http_get env t url (Some (length c)) = Inr r"
    and ok: "200 \<le> status r" "status r < 300" "content_length r \<noteq> Some None"
      "stream_error r = None"
    by simp_all
  from resume_partial [OF fl ne url osd osp par get ok]
  have "\<exists>w'. download_file env it p w = (Inr True, w')
    \<and> trace w' = trace w @ [DownloadInfo (FileId it), Makedirs (dirname p), Log Info,
                  HttpGet url (Some (length c)), Open p Ab, Log Info]
    \<and> nodes w' p = Some (File (c @ body r))" .
  moreover have "\<forall>content. body r = drop (length c) content \<and> length c < length content
                       \<and> int (length content) = Size it
                     \<longrightarrow> int (length (c @ body r)) = Size it"
    by auto
  ultimately show "\<exists>w'. download_file env it p w = (Inr True, w')
                       \<and> trace w' = trace w @ [DownloadInfo (FileId it), Makedirs (dirname p),
                             Log Info, HttpGet url (Some (length c)), Open p Ab, Log Info]
                       \<and> nodes w' p = Some (File (c @ body r))
                       \<and> (\<forall>content. body r = drop (length c) content
                              \<and> length c < length content \<and> int (length content) = Size it
                            \<longrightarrow> int (length (c @ body r)) = Size it)"
    by blast
next
  assume fl: "nodes w p = None"
  from fresh_first_attempt [OF fl url osd par] obtain evs1 where
    "trace (snd (download_attempt env it p w))
           = trace w @ [DownloadInfo (FileId it), Makedirs (dirname p), HttpGet url None] @ evs1"
    by blast
  moreover from download_file_extends_first_attempt [of env it p w] obtain evs2 where
    "trace (snd (download_file env it p w)) = trace (snd (download_attempt env it p w)) @ evs2"
    by blast
  ultimately show "\<exists>evs. trace (snd (download_file env it p w))
                        = trace w @ [DownloadInfo (FileId it), Makedirs (dirname p),
                                     HttpGet url None] @ evs"
    by simp
next
  fix r
  assume fl: "nodes w p = None"
    and s: "(\<forall>t. http_get env t url None = Inr r)
                    \<and> 200 \<le> status r \<and> status r < 300 \<and> content_length r \<noteq> Some None
                    \<and> stream_error r = None \<and> (\<forall>t. os_fault env t p = None)"
  from s have osp: "\<forall>t. os_fault env t p = None"
    and get: "\<forall>t. http_get env t url None = Inr r"
    and ok: "200 \<le> status r" "status r < 300" "content_length r \<noteq> Some None"
      "stream_error r = None"
    by simp_all
  from download_fresh [OF fl url osd osp par get ok]
  have "\<exists>w'. download_file env it p w = (Inr True, w')
    \<and> trace w' = trace w @ [DownloadInfo (FileId it), Makedirs (dirname p),
                  HttpGet url None, Open p Wb, Log Info]
    \<and> nodes w' p = Some (File (body r))"
    by blast
  then show "\<exists>w'. download_file env it p w = (Inr True, w')
                       \<and> trace w' = trace w @ [DownloadInfo (FileId it), Makedirs (dirname p),
                             HttpGet url None, Open p Wb, Log Info]
                       \<and> nodes w' p = Some (File (body r))
                       \<and> (\<forall>content. body r = content \<and> int (length content) = Size it
                            \<longrightarrow> int (length (body r)) = Size it)"
    by auto
qed

lemma retrying_fails_invariant:
  assumes step: "\<And>w. J w \<Longrightarrow> \<exists>w'. download_attempt env it p w = (Inl e, w') \<and> J w'"
    and stable: "\<And>w n. J w \<Longrightarrow> J (sleep n (emit (Log Warning) w))"
    and "J w"
  shows "\<exists>w'. retrying env it p 1 w = (Inl (RetryError e), w') \<and> J w'"
proof -
  from step [OF \<open>J w\<close>] obtain w1 where 1: "download_attempt env it p w = (Inl e, w1)" "J w1"
    by blast
  let ?v1 = "sleep (wait_exponential 1 2 10 1) (emit (Log Warning) w1)"
  from step [OF stable [OF 1(2)]] obtain w2 where
    2: "download_attempt env it p ?v1 = (Inl e, w2)" "J w2"
    by blast
  let ?v2 = "sleep (wait_exponential 1 2 10 (Suc 1)) (emit (Log Warning) w2)"
  from step [OF stable [OF 2(2)]] obtain w3 where
    3: "download_attempt env it p ?v2 = (Inl e, w3)" "J w3"
    by blast
  have r3: "retrying env it p (Suc (Suc 1)) ?v2 = (Inl (RetryError e), w3)"
    by (subst retrying.simps, subst 3) (simp add: MAX_RETRIES_def)
  have r2: "retrying env it p (Suc 1) ?v1 = (Inl (RetryError e), w3)"
    by (subst retrying.simps, subst 2, subst r3 [symmetric]) (simp add: MAX_RETRIES_def)
  have r1: "retrying env it p 1 w = (Inl (RetryError e), w3)"
    by (subst retrying.simps, subst 1, subst r2 [symmetric]) (simp add: MAX_RETRIES_def)
  with 3(2) show ?thesis by blast
qed

lemma parent_ok_nodes: "nodes w' = nodes w \<Longrightarrow> parent_ok w' p = parent_ok w p"
  by (simp add: parent_ok_def)

lemma parent_ok_after_makedirs:
  "parent_ok w p \<Longrightarrow> parent_ok (after_makedirs it p w) p"
  by (auto simp: parent_ok_def after_makedirs_def Let_def split: option.splits node.splits)

lemma oversized_attempt:
  assumes fl: "nodes w lib_srt = Some (File c)" and big: "3 < length c"
    and par: "parent_ok w lib_srt"
  shows "\<exists>w'. download_attempt remote_ok movie_srt lib_srt w = (Inl (HTTPStatusError 416), w')
           \<and> nodes w' lib_srt = Some (File c) \<and> parent_ok w' lib_srt"
proof -
  have n: "nodes (after_makedirs movie_srt lib_srt w) lib_srt = Some (File c)"
    using nodes_after_makedirs [OF par] fl by simp
  have pre: "download_try remote_ok movie_srt lib_srt w =
     andthen (already_complete remote_ok movie_srt lib_srt) (\<lambda>complete.
       if complete then ret True
       else andthen (fetch_and_write remote_ok movie_srt lib_srt (py ''http://cdn/f'')) (\<lambda>_.
            andthen (log Info) (\<lambda>_. ret True))) (after_makedirs movie_srt lib_srt w)"
    by (intro download_try_prefix [OF _ _ par]) (simp_all add: remote_ok_def)
  have sz: "int (length c) \<noteq> Size movie_srt"
    using big by (simp add: movie_srt_def)
  have srv: "http_get remote_ok t u (Some (length c))
      = Inr \<lparr>status = 416, content_length = Some (Some 0), body = [], stream_error = None\<rparr>" for t u
    using big by (simp add: remote_ok_def range_server_def srt_bytes_def)
  have "download_try remote_ok movie_srt lib_srt w
      = (Inl (HTTPStatusError 416),
         emit (HttpGet (py ''http://cdn/f'') (Some (length c)))
           (emit (Log Info) (after_makedirs movie_srt lib_srt w)))"
    using sz by (simp add: pre download_steps n srv)
  then have "download_attempt remote_ok movie_srt lib_srt w
      = (Inl (HTTPStatusError 416),
         emit (Log Error) (emit (HttpGet (py ''http://cdn/f'') (Some (length c)))
           (emit (Log Info) (after_makedirs movie_srt lib_srt w))))"
    by (simp add: download_attempt_def andthen_def log_def raise_def)
  moreover have "parent_ok (emit (Log Error) (emit (HttpGet (py ''http://cdn/f'') (Some (length c)))
           (emit (Log Info) (after_makedirs movie_srt lib_srt w)))) lib_srt"
    using parent_ok_after_makedirs [OF par, of movie_srt] by (simp add: parent_ok_def)
  ultimately show ?thesis
    using n by simp
qed

text \<open>
  Claim C3, as stated, at two concrete inputs. First, the local file has 5 bytes, the
  declared size is 3, and the server honours ranges: every attempt asks for the bytes
  from offset 5 and gets status 416; the download fails and the file keeps its 5 bytes.
  Second, one byte of three is on disk and the remote client is down: the URL resolution
  fails in all three attempts and no GET is sent.
\<close>

theorem oversized_file_never_reaches_size:
  "nodes (with_srt [1, 2, 3, 4, 5]) lib_srt = Some (File [1, 2, 3, 4, 5])
   \<and> http_get remote_ok 0 (py ''http://cdn/f'') = range_server srt_bytes
   \<and> int (length srt_bytes) = Size movie_srt
   \<and> fst (download_file remote_ok movie_srt lib_srt (with_srt [1, 2, 3, 4, 5]))
       = Inl (RetryError (HTTPStatusError 416))
   \<and> nodes (snd (download_file remote_ok movie_srt lib_srt (with_srt [1, 2, 3, 4, 5]))) lib_srt
       = Some (File [1, 2, 3, 4, 5])
   \<and> int (length [1, 2, 3, 4, 5 :: 8 word]) \<noteq> Size movie_srt
   \<and> nodes (with_srt [0x31]) lib_srt = Some (File [0x31])
   \<and> int (length [0x31 :: 8 word]) \<noteq> Size movie_srt
   \<and> network_calls (trace (snd (download_file remote_down movie_srt lib_srt (with_srt [0x31]))))
       = [DownloadInfo 3, DownloadInfo 3, DownloadInfo 3]"
proof -
  let ?J = "\<lambda>w. nodes w lib_srt = Some (File [1, 2, 3, 4, 5]) \<and> parent_ok w lib_srt"
  have "\<exists>w'. retrying remote_ok movie_srt lib_srt 1 (with_srt [1, 2, 3, 4, 5])
          = (Inl (RetryError (HTTPStatusError 416)), w') \<and> ?J w'"
  proof (rule retrying_fails_invariant [where J = ?J])
    fix w assume "?J w"
    then show "\<exists>w'. download_attempt remote_ok movie_srt lib_srt w
         = (Inl (HTTPStatusError 416), w') \<and> ?J w'"
      using oversized_attempt [of w "[1, 2, 3, 4, 5]"] by simp
  next
    fix w n assume "?J w"
    then show "?J (sleep n (emit (Log Warning) w))"
      by (simp add: sleep_def parent_ok_def)
  next
    show "?J (with_srt [1, 2, 3, 4, 5])"
      using parent_ok_with_srt [of "[1, 2, 3, 4, 5]"] by (simp add: with_srt_def)
  qed
  then have 1: "nodes (with_srt [1, 2, 3, 4, 5]) lib_srt = Some (File [1, 2, 3, 4, 5])
   \<and> http_get remote_ok 0 (py ''http://cdn/f'') = range_server srt_bytes
   \<and> int (length srt_bytes) = Size movie_srt
   \<and> fst (download_file remote_ok movie_srt lib_srt (with_srt [1, 2, 3, 4, 5]))
       = Inl (RetryError (HTTPStatusError 416))
   \<and> nodes (snd (download_file remote_ok movie_srt lib_srt (with_srt [1, 2, 3, 4, 5]))) lib_srt
       = Some (File [1, 2, 3, 4, 5])
   \<and> int (length [1, 2, 3, 4, 5 :: 8 word]) \<noteq> Size movie_srt"
    by (auto simp: download_file_def with_srt_def remote_ok_def movie_srt_def srt_bytes_def)
  have 2: "nodes (with_srt [0x31]) lib_srt = Some (File [0x31])
     \<and> int (length [0x31 :: 8 word]) \<noteq> Size movie_srt"
    by (simp add: with_srt_def movie_srt_def)
  have "FileId movie_srt = 3" and "trace (with_srt [0x31]) = []"
    by (simp_all add: movie_srt_def with_srt_def)
  then have 3: "network_calls (trace (snd (download_file remote_down movie_srt lib_srt
                   (with_srt [0x31]))))
       = [DownloadInfo 3, DownloadInfo 3, DownloadInfo 3]"
    by (simp add: down_run retry_start_def sleep_def network_calls_def)
  from 1 2 3 show ?thesis
    by (intro conjI) blast+
qed


text \<open>
  The amended claim C3 on the example: one byte of three on disk, no file on disk, and
  five bytes on disk (the ranged GET is sent although the server will answer 416).
\<close>

theorem download_file_resume_witness:
  "nodes (snd (download_file remote_ok movie_srt lib_srt (with_srt [0x31]))) lib_srt
     = Some (File srt_bytes)
   \<and> nodes (snd (download_file remote_ok movie_srt lib_srt empty_lib)) lib_srt
     = Some (File srt_bytes)
   \<and> int (length srt_bytes) = Size movie_srt
   \<and> (\<exists>evs. trace (snd (download_file remote_ok movie_srt lib_srt (with_srt [1, 2, 3, 4, 5])))
              = [DownloadInfo 3, Makedirs lib, Log Info,
                 HttpGet (py ''http://cdn/f'') (Some 5)] @ evs)"
proof -
  let ?r1 = "\<lparr>status = 206, content_length = Some (Some 2), body = [0x0A, 0x30],
              stream_error = None\<rparr> :: response"
  let ?r2 = "\<lparr>status = 200, content_length = Some (Some 3), body = srt_bytes,
              stream_error = None\<rparr> :: response"
  have url: "\<forall>t. download_info remote_ok t movie_srt = Inr (py ''http://cdn/f'')"
    and osd: "\<forall>t. os_fault remote_ok t (dirname lib_srt) = None"
    and osp: "\<forall>t. os_fault remote_ok t lib_srt = None"
    by (simp_all add: remote_ok_def)
  have g1: "\<forall>t. http_get remote_ok t (py ''http://cdn/f'') (Some (length [0x31 :: 8 word])) = Inr ?r1"
    and g2: "\<forall>t. http_get remote_ok t (py ''http://cdn/f'') None = Inr ?r2"
    by (simp_all add: remote_ok_def range_server_def srt_bytes_def)
  have n1: "nodes (with_srt [0x31]) lib_srt = Some (File [0x31])"
    and n2: "nodes empty_lib lib_srt = None"
    and n3: "nodes (with_srt [1, 2, 3, 4, 5]) lib_srt = Some (File [1, 2, 3, 4, 5])"
    using lib_srt_neq by (auto simp: with_srt_def empty_lib_def)
  have s1: "int (length [0x31 :: 8 word]) \<noteq> Size movie_srt"
    and s3: "int (length [1, 2, 3, 4, 5 :: 8 word]) \<noteq> Size movie_srt"
    by (simp_all add: movie_srt_def)
  from download_file_resume [OF url osd parent_ok_with_srt, of "[0x31]" "[0x31]"] n1 s1
  have "\<forall>r. (\<forall>t. http_get remote_ok t (py ''http://cdn/f'') (Some (length [0x31 :: 8 word])) = Inr r)
                    \<and> 200 \<le> status r \<and> status r < 300 \<and> content_length r \<noteq> Some None
                    \<and> stream_error r = None \<and> (\<forall>t. os_fault remote_ok t lib_srt = None)
          \<longrightarrow> (\<exists>w'. download_file remote_ok movie_srt lib_srt (with_srt [0x31]) = (Inr True, w')
                 \<and> nodes w' lib_srt = Some (File ([0x31] @ body r)))"
    by auto
  from this [rule_format, of ?r1] g1 osp
  have 1: "nodes (snd (download_file remote_ok movie_srt lib_srt (with_srt [0x31]))) lib_srt
     = Some (File srt_bytes)"
    by (auto simp: srt_bytes_def)
  from download_file_resume [OF url osd parent_ok_empty_lib, of "[]"] n2
  have "\<forall>r. (\<forall>t. http_get remote_ok t (py ''http://cdn/f'') None = Inr r)
                    \<and> 200 \<le> status r \<and> status r < 300 \<and> content_length r \<noteq> Some None
                    \<and> stream_error r = None \<and> (\<forall>t. os_fault remote_ok t lib_srt = None)
          \<longrightarrow> (\<exists>w'. download_file remote_ok movie_srt lib_srt empty_lib = (Inr True, w')
                 \<and> nodes w' lib_srt = Some (File (body r)))"
    by auto
  from this [rule_format, of ?r2] g2 osp
  have 2: "nodes (snd (download_file remote_ok movie_srt lib_srt empty_lib)) lib_srt
     = Some (File srt_bytes)"
    by auto
  from download_file_resume [OF url osd parent_ok_with_srt, of "[1, 2, 3, 4, 5]" "[1, 2, 3, 4, 5]"]
    n3 s3
  obtain evs where "trace (snd (download_file remote_ok movie_srt lib_srt (with_srt [1, 2, 3, 4, 5])))
      = trace (with_srt [1, 2, 3, 4, 5])
          @ [DownloadInfo (FileId movie_srt), Makedirs (dirname lib_srt), Log Info,
             HttpGet (py ''http://cdn/f'') (Some (length [1, 2, 3, 4, 5 :: 8 word]))] @ evs"
    by auto
  moreover have "FileId movie_srt = 3" and "trace (with_srt [1, 2, 3, 4, 5]) = []"
    and "length [1, 2, 3, 4, 5 :: 8 word] = 5"
    by (simp_all add: movie_srt_def with_srt_def)
  ultimately have "trace (snd (download_file remote_ok movie_srt lib_srt (with_srt [1, 2, 3, 4, 5])))
      = [DownloadInfo 3, Makedirs lib, Log Info, HttpGet (py ''http://cdn/f'') (Some 5)] @ evs"
    by (simp only: lib_srt_parent append_Nil)
  then have 3: "\<exists>evs. trace (snd (download_file remote_ok movie_srt lib_srt (with_srt [1, 2, 3, 4, 5])))
              = [DownloadInfo 3, Makedirs lib, Log Info,
                 HttpGet (py ''http://cdn/f'') (Some 5)] @ evs"
    by blast
  have 4: "int (length srt_bytes) = Size movie_srt"
    by (simp add: srt_bytes_def movie_srt_def)
  from 1 2 4 3 show ?thesis
    by (intro conjI)
qed

section \<open>The pointer-file emitter and the handler\<close>


lemma write_strm_ok:
  assumes meta: "\<forall>t. fs_info env t (FileId it) = Inr (data # rest)"
    and req: "missing_field data = None"
    and os: "\<forall>t. os_fault env t path = None"
    and enc: "utf8 (strm_url it data) = Some bs"
    and nd: "nodes w path \<noteq> Some Dir"
  shows "\<exists>w'. write_strm env it path w = (Inr True, w')
     \<and> trace w' = trace w @ [FsInfo (FileId it), Open path W, Log Info]
     \<and> nodes w' path = Some (File bs)
     \<and> (\<forall>q. q \<noteq> path \<longrightarrow> nodes w' q = nodes w q)"
proof (cases "nodes w path")
  case None
  then show ?thesis
    using meta req os enc
    by (simp add: write_strm_def andthen_def client_fs_info_def open_file_def write_text_def
        write_file_def log_def ret_def Let_def)
next
  case (Some n)
  with nd obtain c where "nodes w path = Some (File c)"
    by (cases n) auto
  then show ?thesis
    using meta req os enc
    by (simp add: write_strm_def andthen_def client_fs_info_def open_file_def write_text_def
        write_file_def log_def ret_def Let_def)
qed



lemma process_item_video:
  assumes "\<not> env_set P (py ''SYNC_SUBTITLE_ONLY'')" and "is_video P it"
  shows "process_item P env it lp w =
     (case emit_strm P env it lp w of
        (Inl e, w') \<Rightarrow> (Some False, emit (Log Error) w')
      | (Inr r, w') \<Rightarrow> (Some r, w'))"
  using assms
  by (simp add: process_item_def process_item_try_def andthen_def ret_def
      split: prod.splits sum.splits)

lemma utf8_ascii: "\<forall>c \<in> set s. c < 128 \<Longrightarrow> utf8 s = Some (map of_nat s)"
proof (induction s)
  case Nil
  then show ?case by (simp add: utf8_def)
next
  case (Cons a s)
  then have "utf8 s = Some (map of_nat s)" by simp
  then obtain bss where "those (map utf8_cp s) = Some bss" "concat bss = map of_nat s"
    by (auto simp: utf8_def)
  moreover from Cons.prems have "utf8_cp a = Some [of_nat a]"
    by (simp add: utf8_cp_def)
  ultimately show ?case
    by (simp add: utf8_def)
qed

lemma movie_mkv_video: "is_video plain movie_mkv"
  by (simp add: is_video_def plain_def movie_mkv_def endswith_def VIDEO_EXTS_def ascii_lower_def
      py_def suffix_def)

lemma movie_strm_path: "strm_path movie_mkv lib = lib_strm"
  by (simp add: strm_path_def movie_mkv_def lib_def lib_strm_def splitext_root_def
      sanitize_filename_def strip_def lstrip_def rstrip_def re_sub_reserved_def reserved_def
      isspace_def join_def py_def)

lemma movie_meta_complete: "missing_field movie_meta = None"
  by (simp add: missing_field_def required_fields_def movie_meta_def ascii_lower_def py_def)

lemma movie_url:
  "strm_url movie_mkv movie_meta = py ''http://172.17.0.1:8123/Movie.mkv|1000|abc?s3keyflag=7-0''"
  by (simp add: strm_url_def etag_of_def size_of_def s3_key_flag_def py_or_def dict_get_def
      movie_meta_def movie_mkv_def DIRECT_LINK_SERVICE_URL_def str_int_def str_nat.simps py_def)

lemma movie_url_utf8:
  "utf8 (strm_url movie_mkv movie_meta) = Some (map of_nat (strm_url movie_mkv movie_meta))"
  by (rule utf8_ascii) (simp add: movie_url, simp add: py_def)

lemma exts_apart:
  "\<forall>e \<in> set VIDEO_EXTS. \<forall>e' \<in> set SUBTITLE_EXTS. \<not> suffix e e' \<and> \<not> suffix e' e"
  by (simp add: VIDEO_EXTS_def SUBTITLE_EXTS_def py_def suffix_Cons)

lemma exts_disjoint:
  assumes "endswith s VIDEO_EXTS"
  shows "\<not> endswith s SUBTITLE_EXTS"
proof
  assume "endswith s SUBTITLE_EXTS"
  with assms obtain e e' where "e \<in> set VIDEO_EXTS" "suffix e s"
    "e' \<in> set SUBTITLE_EXTS" "suffix e' s"
    by (auto simp: endswith_def list_ex_iff)
  moreover from this have "suffix e e' \<or> suffix e' e"
    using suffix_same_cases by blast
  ultimately show False
    using exts_apart by blast
qed

lemma byte_is_10:
  assumes "n < 256"
  shows "((of_nat n :: 8 word) = 10) = (n = 10)"
proof
  assume "(of_nat n :: 8 word) = 10"
  then have "unat (of_nat n :: 8 word) = unat (10 :: 8 word)"
    by simp
  then have "n mod 2 ^ 8 = 10"
    by (simp add: unat_of_nat)
  with assms show "n = 10"
    by simp
next
  assume "n = 10"
  then show "(of_nat n :: 8 word) = 10"
    by simp
qed

lemma utf8_cp_newline:
  assumes "utf8_cp c = Some b"
  shows "((10 :: 8 word) \<in> set b) = (c = 10)"
proof -
  have d: "c < 2048 \<Longrightarrow> c div 64 < 32" "c < 65536 \<Longrightarrow> c div 4096 < 16"
    "c < 1114112 \<Longrightarrow> c div 262144 < 8" "c mod 64 < 64" "c div 64 mod 64 < 64"
    "c div 4096 mod 64 < 64"
    by simp_all
  show ?thesis
    using assms d
    by (auto simp add: utf8_cp_def byte_is_10 simp del: of_nat_add of_nat_numeral
        split: if_splits)
qed

lemma utf8_newline:
  "utf8 s = Some bs \<Longrightarrow> ((10 :: 8 word) \<in> set bs) = (10 \<in> set s)"
proof (induction s arbitrary: bs)
  case Nil
  then show ?case by (auto simp: utf8_def)
next
  case (Cons c s)
  from Cons.prems obtain b bs' where
    c: "utf8_cp c = Some b" and s: "utf8 s = Some bs'" and bs: "bs = b @ bs'"
    by (auto simp: utf8_def split: option.splits)
  from Cons.IH [OF s] utf8_cp_newline [OF c] bs show ?case
    by auto
qed

lemma strm_url_format:
  "strm_url it data =
     pointer_line DIRECT_LINK_SERVICE_URL (FileName it) (str_of (size_of it data))
       (str_of (etag_of data))
       (if truthy (s3_key_flag data) then Some (str_of (s3_key_flag data)) else None)"
  by (simp add: strm_url_def pointer_line_def Let_def)

lemma s3_key_flag_truthy:
  "truthy (s3_key_flag data) \<longleftrightarrow>
     (\<exists>v. (data (py ''S3KeyFlag'') = Some v \<or> data (py ''s3keyflag'') = Some v) \<and> truthy v)"
  by (auto simp: s3_key_flag_def py_or_def dict_get_def split: option.splits)

lemma strm_url_one_line:
  assumes "10 \<notin> set (FileName it)" and "10 \<notin> set (str_of (size_of it data))"
    and "10 \<notin> set (str_of (etag_of data))" and "10 \<notin> set (str_of (s3_key_flag data))"
  shows "10 \<notin> set (strm_url it data)"
  using assms
  by (simp add: strm_url_def Let_def DIRECT_LINK_SERVICE_URL_def py_def)

text \<open>
  Claim C5, amended: when the pointer file of a media item is written (it is absent or
  regeneration is forced, the metadata holds the required fields, and the file can be
  opened and the text encoded), the item succeeds and the file holds exactly the UTF-8
  encoding of the one string \<open><baseURL>/<rawFileName>|<size>|<contentHash>\<close>, followed
  by \<open>?s3keyflag=<flag>\<close> if and only if a storage key flag field of the metadata holds
  a non-empty (true) value. The file has a line feed exactly where that string has one,
  so it is one line whenever no interpolated field (raw file name, size, content hash,
  flag) holds a line feed. The only network call is the metadata fetch: no URL
  resolution and no GET, so no byte of the media is transferred.
\<close>

theorem pointer_file_content:
  assumes "\<not> env_set P (py ''SYNC_SUBTITLE_ONLY'')" and "is_video P it"
    and "\<not> os_path_exists w (strm_path it lp) \<or> getenv P (py ''DEBUG'') = Some (py ''1'')"
    and "nodes w (strm_path it lp) \<noteq> Some Dir"
    and "\<forall>t. fs_info env t (FileId it) = Inr (data # rest)"
    and "missing_field data = None"
    and "\<forall>t. os_fault env t (strm_path it lp) = None"
    and "utf8 (strm_url it data) = Some bs"
  shows "\<exists>w'. process_item P env it lp w = (Some True, w')
     \<and> nodes w' (strm_path it lp) = Some (File bs)
     \<and> trace w' = trace w @ [FsInfo (FileId it), Open (strm_path it lp) W, Log Info]
     \<and> strm_url it data =
         pointer_line DIRECT_LINK_SERVICE_URL (FileName it) (str_of (size_of it data))
           (str_of (etag_of data))
           (if truthy (s3_key_flag data) then Some (str_of (s3_key_flag data)) else None)
     \<and> (truthy (s3_key_flag data) \<longleftrightarrow>
          (\<exists>v. (data (py ''S3KeyFlag'') = Some v \<or> data (py ''s3keyflag'') = Some v) \<and> truthy v))
     \<and> (10 \<notin> set (FileName it) \<and> 10 \<notin> set (str_of (size_of it data))
          \<and> 10 \<notin> set (str_of (etag_of data)) \<and> 10 \<notin> set (str_of (s3_key_flag data))
        \<longrightarrow> 10 \<notin> set (strm_url it data))
     \<and> ((10 :: 8 word) \<in> set bs) = (10 \<in> set (strm_url it data))"
proof -
  from write_strm_ok [OF assms(5,6,7,8,4)] obtain w' where
    w: "write_strm env it (strm_path it lp) w = (Inr True, w')"
    and t: "trace w' = trace w @ [FsInfo (FileId it), Open (strm_path it lp) W, Log Info]"
    and n: "nodes w' (strm_path it lp) = Some (File bs)"
    by blast
  have "emit_strm P env it lp w = (Inr True, w')"
    using assms(3) w by (auto simp: emit_strm_def)
  then have "process_item P env it lp w = (Some True, w')"
    by (simp add: process_item_video [OF assms(1,2)])
  with t n strm_url_format s3_key_flag_truthy strm_url_one_line utf8_newline [OF assms(8)]
  show ?thesis
    by blast
qed

text \<open>
  The amended claim C5 on the example: \<open>Movie.mkv\<close> under \<open>/lib\<close>, with no pointer file
  yet.
\<close>

theorem pointer_file_content_witness:
  "\<not> env_set plain (py ''SYNC_SUBTITLE_ONLY'') \<and> is_video plain movie_mkv
   \<and> \<not> os_path_exists empty_lib (strm_path movie_mkv lib)
   \<and> missing_field movie_meta = None
   \<and> fst (process_item plain remote_ok movie_mkv lib empty_lib) = Some True
   \<and> nodes (snd (process_item plain remote_ok movie_mkv lib empty_lib)) lib_strm
       = Some (File (map of_nat (py ''http://172.17.0.1:8123/Movie.mkv|1000|abc?s3keyflag=7-0'')))
   \<and> trace (snd (process_item plain remote_ok movie_mkv lib empty_lib))
       = [FsInfo 2, Open lib_strm W, Log Info]"
proof -
  have a: "\<not> env_set plain (py ''SYNC_SUBTITLE_ONLY'')"
    by (simp add: env_set_def plain_def)
  have n: "nodes empty_lib lib_strm = None"
    by (simp add: empty_lib_def lib_def lib_strm_def py_def)
  have c: "\<not> os_path_exists empty_lib (strm_path movie_mkv lib)
            \<or> getenv plain (py ''DEBUG'') = Some (py ''1'')"
    by (simp add: os_path_exists_def movie_strm_path n)
  have d: "nodes empty_lib (strm_path movie_mkv lib) \<noteq> Some Dir"
    by (simp add: movie_strm_path n)
  have e: "\<forall>t. fs_info remote_ok t (FileId movie_mkv) = Inr (movie_meta # [])"
    by (simp add: remote_ok_def)
  have f: "\<forall>t. os_fault remote_ok t (strm_path movie_mkv lib) = None"
    by (simp add: remote_ok_def)
  from pointer_file_content [OF a movie_mkv_video c d e movie_meta_complete f movie_url_utf8]
  obtain w' where r: "process_item plain remote_ok movie_mkv lib empty_lib = (Some True, w')"
    and nd: "nodes w' (strm_path movie_mkv lib)
               = Some (File (map of_nat (strm_url movie_mkv movie_meta)))"
    and tr: "trace w' = trace empty_lib
               @ [FsInfo (FileId movie_mkv), Open (strm_path movie_mkv lib) W, Log Info]"
    by blast
  have 1: "fst (process_item plain remote_ok movie_mkv lib empty_lib) = Some True"
    by (simp add: r)
  have 2: "nodes (snd (process_item plain remote_ok movie_mkv lib empty_lib)) lib_strm
       = Some (File (map of_nat (py ''http://172.17.0.1:8123/Movie.mkv|1000|abc?s3keyflag=7-0'')))"
    using nd by (simp only: r snd_conv movie_strm_path movie_url)
  have 3: "trace (snd (process_item plain remote_ok movie_mkv lib empty_lib))
       = [FsInfo 2, Open lib_strm W, Log Info]"
  proof -
    have "FileId movie_mkv = 2" and "trace empty_lib = []"
      by (simp_all add: movie_mkv_def empty_lib_def)
    with tr show ?thesis
      by (simp add: r movie_strm_path)
  qed
  have 4: "\<not> os_path_exists empty_lib (strm_path movie_mkv lib)"
    by (simp add: os_path_exists_def movie_strm_path n)
  from a movie_mkv_video 4 movie_meta_complete 1 2 3 show ?thesis
    by (intro conjI)
qed

lemma for_items_file:
  "Type it = 0 \<Longrightarrow> for_items k P env lp (it # rest) w =
     for_items k P env lp rest
       (if fst (process_item P env it lp (emit (Log Info) w)) = Some True
        then sleep REQUEST_DELAY (snd (process_item P env it lp (emit (Log Info) w)))
        else snd (process_item P env it lp (emit (Log Info) w)))"
  by (simp split: prod.splits)







lemma video_not_subtitle: "is_video P it \<Longrightarrow> \<not> is_subtitle P it"
  unfolding is_video_def is_subtitle_def by (rule exts_disjoint)

lemma process_item_subtitle:
  assumes "is_subtitle P it"
  shows "process_item P env it lp w =
     (case download_file env it (join lp (sanitize_filename (FileName it))) w of
        (Inl e, w') \<Rightarrow> (Some False, emit (Log Error) w')
      | (Inr r, w') \<Rightarrow> (Some r, w'))"
  using assms video_not_subtitle [of P it]
  by (auto simp: process_item_def process_item_try_def andthen_def ret_def
      split: prod.splits sum.splits)

lemma process_item_ignored:
  assumes "(\<not> is_video P it \<and> \<not> is_subtitle P it)
           \<or> (env_set P (py ''SYNC_SUBTITLE_ONLY'') \<and> is_video P it)"
  shows "process_item P env it lp w = (None, w)"
  using assms video_not_subtitle [of P it]
  by (auto simp: process_item_def process_item_try_def ret_def)





text \<open>
  Claim C10: for an item whose lowercased name ends in neither extension set, and for a
  media item when the subtitle-only switch is set, \<open>process_item\<close> changes nothing and
  returns \<open>None\<close>, which is neither \<open>True\<close> nor \<open>False\<close>; the walker then goes on to the
  next sibling without the pause between requests.
\<close>

theorem ignored_item_returns_none:
  assumes "(\<not> is_video P it \<and> \<not> is_subtitle P it)
           \<or> (env_set P (py ''SYNC_SUBTITLE_ONLY'') \<and> is_video P it)"
  shows "process_item P env it lp w = (None, w)
     \<and> fst (process_item P env it lp w) \<noteq> Some True
     \<and> fst (process_item P env it lp w) \<noteq> Some False
     \<and> (Type it = 0 \<longrightarrow>
          for_items k P env lp (it # rest) w = for_items k P env lp rest (emit (Log Info) w))"
  using process_item_ignored [OF assms]
  by (simp add: for_items_file del: for_items.simps)

lemmas name_eval =
  is_video_def is_subtitle_def endswith_def VIDEO_EXTS_def SUBTITLE_EXTS_def ascii_lower_def
  py_def suffix_Cons

lemma movie_srt_subtitle: "is_subtitle plain movie_srt"
  by (simp add: name_eval plain_def movie_srt_def)

lemma notes_pdf_ignored: "\<not> is_video plain notes_pdf \<and> \<not> is_subtitle plain notes_pdf"
  by (simp add: name_eval plain_def notes_pdf_def)

lemma movie_mkv_video_sub_only: "is_video subtitle_only movie_mkv"
  using movie_mkv_video by (simp add: is_video_def subtitle_only_def plain_def)

lemma sub_only_set: "env_set subtitle_only (py ''SYNC_SUBTITLE_ONLY'')"
  by (simp add: env_set_def subtitle_only_def py_def)

lemma plain_not_sub_only: "\<not> env_set plain (py ''SYNC_SUBTITLE_ONLY'')"
  by (simp add: env_set_def plain_def)

lemma movie_srt_path: "join lib (sanitize_filename (FileName movie_srt)) = lib_srt"
  by (simp add: movie_srt_def lib_def lib_srt_def sanitize_filename_def strip_def lstrip_def
      rstrip_def re_sub_reserved_def reserved_def isspace_def join_def py_def)


lemma empty_lib_no_strm: "nodes empty_lib lib_strm = None"
  by (simp add: empty_lib_def lib_def lib_strm_def py_def)


text \<open>
  Claim C10 on the examples: \<open>Notes.pdf\<close>, and \<open>Movie.mkv\<close> under the subtitle-only
  switch.
\<close>

theorem ignored_item_returns_none_witness:
  "\<not> is_video plain notes_pdf \<and> \<not> is_subtitle plain notes_pdf
   \<and> process_item plain remote_ok notes_pdf lib empty_lib = (None, empty_lib)
   \<and> for_items 0 plain remote_ok lib [notes_pdf, movie_srt] empty_lib
       = for_items 0 plain remote_ok lib [movie_srt] (emit (Log Info) empty_lib)
   \<and> env_set subtitle_only (py ''SYNC_SUBTITLE_ONLY'') \<and> is_video subtitle_only movie_mkv
   \<and> process_item subtitle_only remote_ok movie_mkv lib empty_lib = (None, empty_lib)
   \<and> for_items 0 subtitle_only remote_ok lib [movie_mkv, movie_srt] empty_lib
       = for_items 0 subtitle_only remote_ok lib [movie_srt] (emit (Log Info) empty_lib)"
proof -
  have t: "Type notes_pdf = 0" "Type movie_mkv = 0"
    by (simp_all add: notes_pdf_def movie_mkv_def)
  have a: "(\<not> is_video plain notes_pdf \<and> \<not> is_subtitle plain notes_pdf)
           \<or> (env_set plain (py ''SYNC_SUBTITLE_ONLY'') \<and> is_video plain notes_pdf)"
    using notes_pdf_ignored by blast
  have b: "(\<not> is_video subtitle_only movie_mkv \<and> \<not> is_subtitle subtitle_only movie_mkv)
           \<or> (env_set subtitle_only (py ''SYNC_SUBTITLE_ONLY'') \<and> is_video subtitle_only movie_mkv)"
    using sub_only_set movie_mkv_video_sub_only by blast
  from ignored_item_returns_none [OF a, of remote_ok lib empty_lib 0 "[movie_srt]"]
    ignored_item_returns_none [OF b, of remote_ok lib empty_lib 0 "[movie_srt]"]
    t notes_pdf_ignored sub_only_set movie_mkv_video_sub_only
  show ?thesis
    by (intro conjI) blast+
qed

section \<open>Runs of the examples of the specification\<close>

lemma nodes_sleep [simp]: "nodes (sleep n w) = nodes w"
  by (simp add: sleep_def)

lemma trace_sleep [simp]: "trace (sleep n w) = trace w @ [Sleep n]"
  by (simp add: sleep_def)

lemma lib_strm_neq: "lib_strm \<noteq> lib_srt" "lib_strm \<noteq> lib"
  by (simp_all add: lib_strm_def lib_srt_def lib_def py_def)

lemma srt_download_fresh:
  assumes "nodes w lib_srt = None" and "nodes w lib = Some Dir"
    and "download_info env = download_info remote_ok" and "http_get env = http_get remote_ok"
    and "os_fault env = os_fault remote_ok"
  shows "\<exists>w'. process_item plain env movie_srt lib w = (Some True, w')
     \<and> nodes w' lib_srt = Some (File srt_bytes)
     \<and> nodes w' lib_strm = nodes w lib_strm
     \<and> trace w' = trace w @ [DownloadInfo 3, Makedirs lib, HttpGet (py ''http://cdn/f'') None,
                               Open lib_srt Wb, Log Info]"
proof -
  let ?r = "\<lparr>status = 200, content_length = Some (Some 3), body = srt_bytes,
              stream_error = None\<rparr> :: response"
  have par: "parent_ok w lib_srt"
    using assms(2) lib_srt_neq by (simp add: parent_ok_def lib_srt_parent) (simp add: lib_def py_def)
  have url: "\<forall>t. download_info env t movie_srt = Inr (py ''http://cdn/f'')"
    and os: "\<forall>t q. os_fault env t q = None"
    and get: "\<forall>t. http_get env t (py ''http://cdn/f'') None = Inr ?r"
    by (simp_all add: assms remote_ok_def range_server_def srt_bytes_def)
  from os have osd: "\<forall>t. os_fault env t (dirname lib_srt) = None"
    and osp: "\<forall>t. os_fault env t lib_srt = None"
    by simp_all
  from download_fresh [OF assms(1) url osd osp par get] obtain w' where
    d: "download_file env movie_srt lib_srt w = (Inr True, w')"
    and t: "trace w' = trace w @ [DownloadInfo (FileId movie_srt), Makedirs (dirname lib_srt),
                  HttpGet (py ''http://cdn/f'') None, Open lib_srt Wb, Log Info]"
    and f: "nodes w' lib_srt = Some (File (body ?r))"
    and o: "\<forall>q. q \<noteq> lib_srt \<and> q \<noteq> dirname lib_srt \<longrightarrow> nodes w' q = nodes w q"
    by auto
  have "process_item plain env movie_srt lib w = (Some True, w')"
    by (simp add: process_item_subtitle [OF movie_srt_subtitle] movie_srt_path d)
  moreover have "FileId movie_srt = 3"
    by (simp add: movie_srt_def)
  moreover have "nodes w' lib_strm = nodes w lib_strm"
    using o lib_strm_neq by (simp add: lib_srt_parent)
  ultimately show ?thesis
    using t f by (simp add: lib_srt_parent)
qed


text \<open>
  The first example of the specification: one visit of the directory writes the pointer
  file (after one metadata fetch) and downloads the three bytes of the subtitle, with the
  pauses after the listing and after each successful item.
\<close>

lemma example_run:
  "\<exists>w'. generate_strm 1 plain remote_ok lib 1 empty_lib = Some (Inr (), w')
     \<and> nodes w' lib_strm
         = Some (File (map of_nat (py ''http://172.17.0.1:8123/Movie.mkv|1000|abc?s3keyflag=7-0'')))
     \<and> nodes w' lib_srt = Some (File srt_bytes)
     \<and> trace w' = [Log Info, Iterdir 1, Sleep 2,
                    Log Info, FsInfo 2, Open lib_strm W, Log Info, Sleep 1,
                    Log Info, DownloadInfo 3, Makedirs lib, HttpGet (py ''http://cdn/f'') None,
                    Open lib_srt Wb, Log Info, Sleep 1,
                    Log Info]"
proof -
  let ?w0 = "sleep DIR_DELAY (emit (Iterdir 1) (emit (Log Info) empty_lib))"
  have l: "client_iterdir remote_ok 1 (emit (Log Info) empty_lib)
             = (Inr [movie_mkv, movie_srt], emit (Iterdir 1) (emit (Log Info) empty_lib))"
    by (simp add: client_iterdir_def remote_ok_def)
  have t: "Type movie_mkv = 0" "Type movie_srt = 0" and i: "FileId movie_mkv = 2"
    by (simp_all add: movie_mkv_def movie_srt_def)
  have d: "nodes (emit (Log Info) ?w0) (strm_path movie_mkv lib) \<noteq> Some Dir"
    by (simp add: movie_strm_path empty_lib_no_strm)
  have e: "\<forall>t. fs_info remote_ok t (FileId movie_mkv) = Inr (movie_meta # [])"
    and f: "\<forall>t. os_fault remote_ok t (strm_path movie_mkv lib) = None"
    by (simp_all add: remote_ok_def)
  from write_strm_ok [OF e movie_meta_complete f movie_url_utf8 d] obtain w1 where
    ws: "write_strm remote_ok movie_mkv (strm_path movie_mkv lib) (emit (Log Info) ?w0)
           = (Inr True, w1)"
    and t1: "trace w1 = trace (emit (Log Info) ?w0)
               @ [FsInfo (FileId movie_mkv), Open (strm_path movie_mkv lib) W, Log Info]"
    and n1: "nodes w1 (strm_path movie_mkv lib)
               = Some (File (map of_nat (strm_url movie_mkv movie_meta)))"
    and o1: "\<forall>q. q \<noteq> strm_path movie_mkv lib \<longrightarrow> nodes w1 q = nodes (emit (Log Info) ?w0) q"
    by blast
  have "emit_strm plain remote_ok movie_mkv lib (emit (Log Info) ?w0) = (Inr True, w1)"
    using ws by (simp add: emit_strm_def os_path_exists_def movie_strm_path empty_lib_no_strm)
  then have 1: "process_item plain remote_ok movie_mkv lib (emit (Log Info) ?w0) = (Some True, w1)"
    by (simp add: process_item_video [OF plain_not_sub_only movie_mkv_video])
  let ?w2 = "emit (Log Info) (sleep REQUEST_DELAY w1)"
  have n2: "nodes ?w2 lib_srt = None" "nodes ?w2 lib = Some Dir"
    using o1 lib_strm_neq lib_srt_neq
    by (auto simp: movie_strm_path empty_lib_def)
  from srt_download_fresh [OF n2, of remote_ok] obtain w3 where
    2: "process_item plain remote_ok movie_srt lib ?w2 = (Some True, w3)"
    and f3: "nodes w3 lib_srt = Some (File srt_bytes)"
    and s3: "nodes w3 lib_strm = nodes ?w2 lib_strm"
    and t3: "trace w3 = trace ?w2 @ [DownloadInfo 3, Makedirs lib,
                HttpGet (py ''http://cdn/f'') None, Open lib_srt Wb, Log Info]"
    by auto
  have fi: "for_items 0 plain remote_ok lib [movie_mkv, movie_srt] ?w0
          = Some (Inr (), sleep REQUEST_DELAY w3)"
    by (simp add: for_items_file t 1 2 del: for_items.simps) simp
  have g: "generate_strm 1 plain remote_ok lib 1 empty_lib
          = Some (Inr (), emit (Log Info) (sleep REQUEST_DELAY w3))"
    unfolding One_nat_def
    by (subst generate_strm.simps, subst l) (simp add: fi [unfolded One_nat_def] del: for_items.simps)
  have "trace empty_lib = []"
    by (simp add: empty_lib_def)
  then have "trace (emit (Log Info) (sleep REQUEST_DELAY w3)) = [Log Info, Iterdir 1, Sleep 2,
                    Log Info, FsInfo 2, Open lib_strm W, Log Info, Sleep 1,
                    Log Info, DownloadInfo 3, Makedirs lib, HttpGet (py ''http://cdn/f'') None,
                    Open lib_srt Wb, Log Info, Sleep 1,
                    Log Info]"
    by (simp add: t3 t1 i movie_strm_path REQUEST_DELAY_def DIR_DELAY_def)
  moreover have "nodes (emit (Log Info) (sleep REQUEST_DELAY w3)) lib_strm
      = Some (File (map of_nat (py ''http://172.17.0.1:8123/Movie.mkv|1000|abc?s3keyflag=7-0'')))"
    using n1 s3 by (simp add: movie_strm_path movie_url)
  ultimately show ?thesis
    using g f3 by simp
qed

text \<open>
  A second visit, with both files in place: the pointer file is skipped without any
  call, the subtitle costs one URL resolution and no GET, and no file changes.
\<close>

lemma second_run:
  assumes "nodes w lib = Some Dir" and "nodes w lib_strm = Some (File c)"
    and "nodes w lib_srt = Some (File srt_bytes)"
  shows "\<exists>w'. generate_strm 1 plain remote_ok lib 1 w = Some (Inr (), w')
     \<and> nodes w' = nodes w
     \<and> trace w' = trace w @ [Log Info, Iterdir 1, Sleep 2,
                    Log Info, Sleep 1,
                    Log Info, DownloadInfo 3, Makedirs lib, Log Info, Sleep 1,
                    Log Info]"
proof -
  let ?w0 = "sleep DIR_DELAY (emit (Iterdir 1) (emit (Log Info) w))"
  have l: "client_iterdir remote_ok 1 (emit (Log Info) w)
             = (Inr [movie_mkv, movie_srt], emit (Iterdir 1) (emit (Log Info) w))"
    by (simp add: client_iterdir_def remote_ok_def)
  have t: "Type movie_mkv = 0" "Type movie_srt = 0" and i: "FileId movie_srt = 3"
    by (simp_all add: movie_mkv_def movie_srt_def)
  have "emit_strm plain remote_ok movie_mkv lib (emit (Log Info) ?w0)
          = (Inr True, emit (Log Info) ?w0)"
    using assms(2)
    by (simp add: emit_strm_def os_path_exists_def movie_strm_path plain_def ret_def)
  then have 1: "process_item plain remote_ok movie_mkv lib (emit (Log Info) ?w0)
          = (Some True, emit (Log Info) ?w0)"
    by (simp add: process_item_video [OF plain_not_sub_only movie_mkv_video])
  let ?w2 = "emit (Log Info) (sleep REQUEST_DELAY (emit (Log Info) ?w0))"
  have par: "parent_ok ?w2 lib_srt"
    using assms(1) lib_srt_neq by (simp add: parent_ok_def lib_srt_parent) (simp add: lib_def py_def)
  have "download_file remote_ok movie_srt lib_srt ?w2
          = (Inr True, emit (Log Info) (after_makedirs movie_srt lib_srt ?w2))"
    using assms(3) par
    by (intro complete_file [where c = srt_bytes and url = "py ''http://cdn/f''"])
       (simp_all add: srt_bytes_def movie_srt_def remote_ok_def)
  then have 2: "process_item plain remote_ok movie_srt lib ?w2
          = (Some True, emit (Log Info) (after_makedirs movie_srt lib_srt ?w2))"
    by (simp add: process_item_subtitle [OF movie_srt_subtitle] movie_srt_path)
  let ?w3 = "emit (Log Info) (after_makedirs movie_srt lib_srt ?w2)"
  have fi: "for_items 0 plain remote_ok lib [movie_mkv, movie_srt] ?w0
          = Some (Inr (), sleep REQUEST_DELAY ?w3)"
    by (simp add: for_items_file t 1 2 del: for_items.simps) simp
  have g: "generate_strm 1 plain remote_ok lib 1 w
          = Some (Inr (), emit (Log Info) (sleep REQUEST_DELAY ?w3))"
    unfolding One_nat_def
    by (subst generate_strm.simps, subst l) (simp add: fi [unfolded One_nat_def] del: for_items.simps)
  have "nodes (after_makedirs movie_srt lib_srt ?w2) = nodes w"
    using assms(1) by (simp add: after_makedirs_def lib_srt_parent Let_def)
  moreover have "trace (after_makedirs movie_srt lib_srt ?w2)
      = trace ?w2 @ [DownloadInfo 3, Makedirs lib]"
    by (simp add: trace_after_makedirs i lib_srt_parent)
  ultimately show ?thesis
    using g by (simp add: REQUEST_DELAY_def DIR_DELAY_def)
qed

section \<open>A run over a mirrored tree\<close>

lemma files_of_emit [simp]: "files_of (emit ev w) = files_of w"
  by (rule ext) (simp add: files_of_def)

lemma files_of_sleep [simp]: "files_of (sleep n w) = files_of w"
  by (rule ext) (simp add: files_of_def)

lemma files_of_Some: "files_of w q = Some c \<longleftrightarrow> nodes w q = Some (File c)"
  by (auto simp: files_of_def split: option.splits node.splits)

lemma files_of_None: "files_of w q = None \<longleftrightarrow> (\<forall>c. nodes w q \<noteq> Some (File c))"
  by (auto simp: files_of_def split: option.splits node.splits)

















section \<open>The isolation of failures on the examples\<close>




section \<open>A pointer file of two lines\<close>

lemma two_line_video: "is_video plain two_line_mkv"
  by (simp add: is_video_def plain_def two_line_mkv_def endswith_def VIDEO_EXTS_def
      ascii_lower_def py_def suffix_def)

lemma two_line_path: "strm_path two_line_mkv lib = py ''/lib/a'' @ [10] @ py ''b.strm''"
  by (simp add: strm_path_def two_line_mkv_def lib_def splitext_root_def
      sanitize_filename_def strip_def lstrip_def rstrip_def re_sub_reserved_def reserved_def
      isspace_def join_def py_def)

lemma two_line_url:
  "strm_url two_line_mkv movie_meta
     = py ''http://172.17.0.1:8123/a'' @ [10] @ py ''b.mkv|1000|abc?s3keyflag=7-0''"
  by (simp add: strm_url_def etag_of_def size_of_def s3_key_flag_def py_or_def dict_get_def
      movie_meta_def two_line_mkv_def DIRECT_LINK_SERVICE_URL_def str_int_def str_nat.simps py_def)

lemma two_line_utf8:
  "utf8 (strm_url two_line_mkv movie_meta) = Some (map of_nat (strm_url two_line_mkv movie_meta))"
  by (rule utf8_ascii) (simp add: two_line_url, simp add: py_def)

text \<open>
  Claim C5, as stated, at a concrete input: the remote name of the media item is
  \<open>a\<close>, a line feed and \<open>b.mkv\<close>. The item is classified as media, the handler
  succeeds, and the pointer file holds the raw name with its line feed: two lines.
\<close>

theorem pointer_file_of_two_lines:
  "\<not> env_set plain (py ''SYNC_SUBTITLE_ONLY'') \<and> is_video plain two_line_mkv
   \<and> fst (process_item plain remote_ok two_line_mkv lib empty_lib) = Some True
   \<and> nodes (snd (process_item plain remote_ok two_line_mkv lib empty_lib))
         (strm_path two_line_mkv lib)
       = Some (File (map of_nat (py ''http://172.17.0.1:8123/a'' @ [10]
                                  @ py ''b.mkv|1000|abc?s3keyflag=7-0'')))
   \<and> (10 :: 8 word) \<in> set (map of_nat (py ''http://172.17.0.1:8123/a'' @ [10]
                                  @ py ''b.mkv|1000|abc?s3keyflag=7-0''))"
proof -
  have n: "nodes empty_lib (strm_path two_line_mkv lib) = None"
    by (simp add: two_line_path) (simp add: empty_lib_def lib_def py_def)
  then have d: "nodes empty_lib (strm_path two_line_mkv lib) \<noteq> Some Dir"
    by simp
  have e: "\<forall>t. fs_info remote_ok t (FileId two_line_mkv) = Inr (movie_meta # [])"
    and f: "\<forall>t. os_fault remote_ok t (strm_path two_line_mkv lib) = None"
    by (simp_all add: remote_ok_def)
  from write_strm_ok [OF e movie_meta_complete f two_line_utf8 d] obtain w' where
    ws: "write_strm remote_ok two_line_mkv (strm_path two_line_mkv lib) empty_lib = (Inr True, w')"
    and nd: "nodes w' (strm_path two_line_mkv lib)
               = Some (File (map of_nat (strm_url two_line_mkv movie_meta)))"
    by blast
  have "emit_strm plain remote_ok two_line_mkv lib empty_lib = (Inr True, w')"
    using ws n by (simp add: emit_strm_def os_path_exists_def)
  then have r: "process_item plain remote_ok two_line_mkv lib empty_lib = (Some True, w')"
    by (simp add: process_item_video [OF plain_not_sub_only two_line_video])
  have 1: "fst (process_item plain remote_ok two_line_mkv lib empty_lib) = Some True"
    by (simp add: r)
  have 2: "nodes (snd (process_item plain remote_ok two_line_mkv lib empty_lib))
         (strm_path two_line_mkv lib)
       = Some (File (map of_nat (py ''http://172.17.0.1:8123/a'' @ [10]
                                  @ py ''b.mkv|1000|abc?s3keyflag=7-0'')))"
    using nd by (simp only: r snd_conv two_line_url)
  have 3: "(10 :: 8 word) \<in> set (map of_nat (py ''http://172.17.0.1:8123/a'' @ [10]
                                  @ py ''b.mkv|1000|abc?s3keyflag=7-0''))"
    by simp
  from plain_not_sub_only two_line_video 1 2 3 show ?thesis
    by (intro conjI)
qed

end
